theory Spec2Isabelle
  imports Complex_Main "HOL-Library.Signed_Division"
begin

section \<open>The Pomodoro timer component of \<^verbatim>\<open>src/app/page.tsx\<close>\<close>

text \<open>
  The component \<^verbatim>\<open>PomodoroApp\<close> is a React function component: nine state variables, two
  refs, one effect that owns the countdown, and a handful of event handlers. The embedding
  keeps that shape. The component's state, its refs and the part of the browser it talks to
  (interval timers, audio, notifications, the console) form one record; every handler and
  the effect body are functions on that record; React's rule "run the effect again after a
  render in which a dependency changed" is the loop \<open>runEffects\<close>. An exception that the
  source catches is a branch of the function that catches it; the one exception nothing
  catches is a value of type \<open>error\<close>, returned by \<^verbatim>\<open>playAlarm\<close>, the effect and every
  event in place of a state.

  JavaScript numbers that only ever hold integers here (seconds, minutes, counters) are
  \<open>int\<close>. The alarm volume and the progress percentage are fractions; they are modelled
  over the reals, so the rounding of IEEE doubles is not part of the model. The one-second
  period of the interval timer is not modelled either: a tick is an event that may happen
  whenever an interval timer is live.
\<close>

subsection \<open>The browser as seen by the component\<close>

datatype permission = PermDefault | PermDenied | PermGranted

text \<open>
  What happens inside the \<^verbatim>\<open>try\<close> block of \<^verbatim>\<open>playBeep\<close>: everything works, constructing the
  \<^verbatim>\<open>AudioContext\<close> throws, or the context exists and a later call on it throws.
\<close>

datatype audio_backend = AudioOk | AudioNoContext | AudioPlayFails

text \<open>
  What \<^verbatim>\<open>new Notification(...)\<close> does in a page that holds the permission: it shows the
  notification, or it throws a \<^verbatim>\<open>TypeError\<close> (browsers that only allow notifications
  through a service worker registration reject the page constructor this way).
\<close>

datatype notification_constructor = ConstructorWorks | ConstructorThrows

record platform =
  windowDefined :: bool
  audio :: audio_backend
  notificationInWindow :: bool
  notificationPermission :: permission
  notificationConstructor :: notification_constructor

text \<open>An exception that nothing in the component catches.\<close>

datatype error = NotificationTypeError

text \<open>The effects the component has on the outside world, in the order they happen.\<close>

datatype host_effect =
    Beep real
  | ConsoleLog string
  | Notification string string

subsection \<open>Component state\<close>

record app =
  timeLeft :: int
  isActive :: bool
  isBreak :: bool
  completedPomodoros :: int
  showSettings :: bool
  workDuration :: int
  shortBreakDuration :: int
  longBreakDuration :: int
  alarmVolume :: real
  intervalRef :: "nat option"
  audioContextRef :: bool
  liveIntervals :: "nat list"
  nextIntervalId :: nat
  outputs :: "host_effect list"

text \<open>
  \<open>intervalRef\<close> is \<^verbatim>\<open>intervalRef.current\<close> (\<open>None\<close> for \<^verbatim>\<open>null\<close>); \<open>audioContextRef\<close> says
  whether \<^verbatim>\<open>audioContextRef.current\<close> holds a context. \<open>liveIntervals\<close> are the handles of
  the interval timers the browser currently runs, \<open>nextIntervalId\<close> is the handle the next
  \<^verbatim>\<open>setInterval\<close> returns (handles are positive, so a stored handle is always truthy).
\<close>

definition initialState :: app where
  "initialState =
     \<lparr> timeLeft = 25 * 60, isActive = False, isBreak = False, completedPomodoros = 0,
       showSettings = False, workDuration = 25, shortBreakDuration = 5,
       longBreakDuration = 15, alarmVolume = 1 / 2, intervalRef = None,
       audioContextRef = False, liveIntervals = [], nextIntervalId = 1, outputs = [] \<rparr>"

subsection \<open>Alarm\<close>

definition logOutput :: "host_effect \<Rightarrow> app \<Rightarrow> app" where
  "logOutput x s = s\<lparr>outputs := outputs s @ [x]\<rparr>"

text \<open>
  \<^verbatim>\<open>playBeep\<close>: the whole body sits in \<^verbatim>\<open>try\<close>; whatever throws is caught and logged.
  Without a \<^verbatim>\<open>window\<close> the expression \<^verbatim>\<open>window.AudioContext\<close> throws as well.
\<close>

definition playBeep :: "platform \<Rightarrow> app \<Rightarrow> app" where
  "playBeep p s =
     (if \<not> audioContextRef s \<and> (\<not> windowDefined p \<or> audio p = AudioNoContext)
      then logOutput (ConsoleLog ''Audio not supported or failed:'') s
      else if audio p = AudioPlayFails
      then logOutput (ConsoleLog ''Audio not supported or failed:'') (s\<lparr>audioContextRef := True\<rparr>)
      else logOutput (Beep (alarmVolume s * 3 / 10)) (s\<lparr>audioContextRef := True\<rparr>))"

text \<open>
  \<^verbatim>\<open>playAlarm\<close>: the beep, then a notification if \<^verbatim>\<open>window\<close> exists, has a
  \<^verbatim>\<open>Notification\<close> and the permission is \<^verbatim>\<open>'granted'\<close>. The constructor call is not
  inside a \<^verbatim>\<open>try\<close>: if it throws, \<^verbatim>\<open>playAlarm\<close> throws.
\<close>

definition playAlarm :: "platform \<Rightarrow> app \<Rightarrow> error + app" where
  "playAlarm p s =
     (let s1 = playBeep p s in
      if windowDefined p \<and> notificationInWindow p \<and> notificationPermission p = PermGranted
      then (if notificationConstructor p = ConstructorThrows then Inl NotificationTypeError
            else Inr (logOutput
                   (Notification
                      (if isBreak s then ''Break time is over!'' else ''Pomodoro completed!'')
                      (if isBreak s then ''Time to get back to work!'' else ''Time for a break!''))
                   s1))
      else Inr s1)"

subsection \<open>Interval timers\<close>

text \<open>\<^verbatim>\<open>intervalRef.current = setInterval(...)\<close>\<close>

definition armInterval :: "app \<Rightarrow> app" where
  "armInterval s =
     s\<lparr> intervalRef := Some (nextIntervalId s),
        liveIntervals := liveIntervals s @ [nextIntervalId s],
        nextIntervalId := Suc (nextIntervalId s) \<rparr>"

text \<open>\<^verbatim>\<open>if (intervalRef.current) { clearInterval(intervalRef.current) }\<close>\<close>

definition clearIntervalRef :: "app \<Rightarrow> app" where
  "clearIntervalRef s =
     (case intervalRef s of
        None \<Rightarrow> s
      | Some i \<Rightarrow> s\<lparr>liveIntervals := removeAll i (liveIntervals s)\<rparr>)"

subsection \<open>The timer effect\<close>

text \<open>
  The branch \<^verbatim>\<open>timeLeft === 0\<close> of the effect ("Timer finished"). \<^verbatim>\<open>playAlarm()\<close> is
  its first statement: when that throws, none of the setters below it runs.
\<close>

definition timerFinished :: "platform \<Rightarrow> app \<Rightarrow> error + app" where
  "timerFinished p s =
     (case playAlarm p s of
        Inl err \<Rightarrow> Inl err
      | Inr s1 \<Rightarrow>
          let s2 = (if isBreak s
                    then s1\<lparr>isBreak := False, timeLeft := workDuration s * 60\<rparr>
                    else
                      let newCompletedCount = completedPomodoros s + 1;
                          isLongBreak = (newCompletedCount smod 4 = 0)
                      in s1\<lparr> completedPomodoros := newCompletedCount,
                             isBreak := True,
                             timeLeft := (if isLongBreak then longBreakDuration s * 60
                                          else shortBreakDuration s * 60) \<rparr>)
          in Inr (s2\<lparr>isActive := False\<rparr>))"

definition timerEffect :: "platform \<Rightarrow> app \<Rightarrow> error + app" where
  "timerEffect p s =
     (if isActive s \<and> timeLeft s > 0 then Inr (armInterval s)
      else if timeLeft s = 0 then timerFinished p s
      else Inr s)"

definition effectCleanup :: "app \<Rightarrow> app" where
  "effectCleanup s = clearIntervalRef s"

text \<open>The dependency array of the effect.\<close>

definition deps :: "app \<Rightarrow> bool \<times> int \<times> bool \<times> int \<times> int \<times> int \<times> int" where
  "deps s =
     (isActive s, timeLeft s, isBreak s, workDuration s, shortBreakDuration s,
      longBreakDuration s, completedPomodoros s)"

text \<open>
  After a render React compares the dependencies with those of the previous render; if one
  differs it runs the previous cleanup and then the effect body. The body may set state,
  which renders again. Nothing in the source bounds this loop, hence an option-valued
  partial function: \<open>None\<close> is a render loop that never settles. An exception thrown by
  the effect body ends the loop: React has nothing to catch it with and takes the
  component down.
\<close>

partial_function (option) runEffects ::
  "platform \<Rightarrow> app \<Rightarrow> app \<Rightarrow> (error + app) option" where
  "runEffects p prev cur =
     (if deps cur = deps prev then Some (Inr cur)
      else (case timerEffect p (effectCleanup cur) of
              Inl err \<Rightarrow> Some (Inl err)
            | Inr next \<Rightarrow> runEffects p cur next))"

subsection \<open>Event handlers\<close>

definition toggleTimer :: "platform \<Rightarrow> app \<Rightarrow> app" where
  "toggleTimer p s =
     (let s1 = s\<lparr>isActive := \<not> isActive s\<rparr> in
      if \<not> audioContextRef s \<and> windowDefined p
      then (if audio p = AudioNoContext
            then logOutput (ConsoleLog ''Audio context creation failed:'') s1
            else s1\<lparr>audioContextRef := True\<rparr>)
      else s1)"

definition resetTimer :: "app \<Rightarrow> app" where
  "resetTimer s =
     clearIntervalRef (s\<lparr>isActive := False, isBreak := False, timeLeft := workDuration s * 60\<rparr>)"

definition resetSession :: "app \<Rightarrow> app" where
  "resetSession s = (resetTimer s)\<lparr>completedPomodoros := 0\<rparr>"

text \<open>The interval callback \<^verbatim>\<open>setTimeLeft(time => time - 1)\<close>; it only runs for a live timer.\<close>

definition intervalCallback :: "app \<Rightarrow> app" where
  "intervalCallback s = (if liveIntervals s = [] then s else s\<lparr>timeLeft := timeLeft s - 1\<rparr>)"

datatype event =
    Toggle
  | Reset
  | ResetSession
  | Tick
  | ToggleSettings
  | SetWorkDuration int
  | SetShortBreakDuration int
  | SetLongBreakDuration int
  | SetAlarmVolume real

fun handle :: "platform \<Rightarrow> event \<Rightarrow> app \<Rightarrow> app" where
  "handle p Toggle s = toggleTimer p s"
| "handle p Reset s = resetTimer s"
| "handle p ResetSession s = resetSession s"
| "handle p Tick s = intervalCallback s"
| "handle p ToggleSettings s = s\<lparr>showSettings := \<not> showSettings s\<rparr>"
| "handle p (SetWorkDuration v) s = s\<lparr>workDuration := v\<rparr>"
| "handle p (SetShortBreakDuration v) s = s\<lparr>shortBreakDuration := v\<rparr>"
| "handle p (SetLongBreakDuration v) s = s\<lparr>longBreakDuration := v\<rparr>"
| "handle p (SetAlarmVolume v) s = s\<lparr>alarmVolume := v\<rparr>"

text \<open>One event: the handler's state updates, then the renders and effects they cause.\<close>

definition step :: "platform \<Rightarrow> event \<Rightarrow> app \<Rightarrow> (error + app) option" where
  "step p e s = runEffects p s (handle p e s)"

text \<open>A sequence of events; after an uncaught exception there is no component left.\<close>

fun run :: "platform \<Rightarrow> event list \<Rightarrow> app \<Rightarrow> (error + app) option" where
  "run p [] s = Some (Inr s)"
| "run p (e # es) s =
     (case step p e s of
        None \<Rightarrow> None
      | Some (Inl err) \<Rightarrow> Some (Inl err)
      | Some (Inr s') \<Rightarrow> run p es s')"

text \<open>
  The sliders of the settings panel are range inputs: the browser only ever reports a value
  between their \<^verbatim>\<open>min\<close> and \<^verbatim>\<open>max\<close>.
\<close>

fun validEvent :: "event \<Rightarrow> bool" where
  "validEvent (SetWorkDuration v) = (15 \<le> v \<and> v \<le> 60)"
| "validEvent (SetShortBreakDuration v) = (3 \<le> v \<and> v \<le> 15)"
| "validEvent (SetLongBreakDuration v) = (15 \<le> v \<and> v \<le> 45)"
| "validEvent (SetAlarmVolume v) = (0 \<le> v \<and> v \<le> 1)"
| "validEvent _ = True"

fun isDurationEdit :: "event \<Rightarrow> bool" where
  "isDurationEdit (SetWorkDuration v) = True"
| "isDurationEdit (SetShortBreakDuration v) = True"
| "isDurationEdit (SetLongBreakDuration v) = True"
| "isDurationEdit _ = False"

fun isConfigEdit :: "event \<Rightarrow> bool" where
  "isConfigEdit (SetAlarmVolume v) = True"
| "isConfigEdit e = isDurationEdit e"

subsection \<open>Derived display values\<close>

definition totalDuration :: "app \<Rightarrow> int" where
  "totalDuration s =
     (if isBreak s
      then (if completedPomodoros s > 0 \<and> completedPomodoros s smod 4 = 0
            then longBreakDuration s else shortBreakDuration s) * 60
      else workDuration s * 60)"

text \<open>
  \<^verbatim>\<open>progress\<close> is a percentage. With \<^verbatim>\<open>totalDuration\<close> zero the JavaScript division yields
  \<^verbatim>\<open>NaN\<close> or an infinity; that is \<open>None\<close> here.
\<close>

definition progress :: "app \<Rightarrow> real option" where
  "progress s =
     (if totalDuration s = 0 then None
      else Some ((of_int (totalDuration s - timeLeft s) / of_int (totalDuration s)) * 100))"

subsection \<open>Reachable states\<close>

text \<open>
  The states the component settles in: the mounted initial state, and whatever an event
  leads to. \<open>reachable\<close> admits every event; \<open>reachableBy ok\<close> only those events
  that \<open>ok\<close> admits in the state they arrive in.
\<close>

inductive reachableBy :: "(app \<Rightarrow> event \<Rightarrow> bool) \<Rightarrow> app \<Rightarrow> bool"
  for ok :: "app \<Rightarrow> event \<Rightarrow> bool" where
  rb_init: "reachableBy ok initialState"
| rb_step: "reachableBy ok s \<Longrightarrow> validEvent e \<Longrightarrow> ok s e \<Longrightarrow>
            step p e s = Some (Inr s') \<Longrightarrow> reachableBy ok s'"

definition reachable :: "app \<Rightarrow> bool" where
  "reachable s = reachableBy (\<lambda>s e. True) s"

subsection \<open>Invariants of settled states\<close>

definition validConfig :: "app \<Rightarrow> bool" where
  "validConfig s =
     (15 \<le> workDuration s \<and> workDuration s \<le> 60 \<and>
      3 \<le> shortBreakDuration s \<and> shortBreakDuration s \<le> 15 \<and>
      15 \<le> longBreakDuration s \<and> longBreakDuration s \<le> 45)"

definition tickSourceOk :: "app \<Rightarrow> bool" where
  "tickSourceOk s =
     (if isActive s \<and> 0 < timeLeft s
      then (case intervalRef s of None \<Rightarrow> False | Some i \<Rightarrow> liveIntervals s = [i])
      else liveIntervals s = [])"

definition settled :: "app \<Rightarrow> bool" where
  "settled s = (validConfig s \<and> 0 < timeLeft s \<and> 0 \<le> completedPomodoros s \<and> tickSourceOk s)"

definition timerState :: "app \<Rightarrow> int \<times> bool \<times> bool \<times> int" where
  "timerState s = (timeLeft s, isActive s, isBreak s, completedPomodoros s)"

text \<open>
  The condition under which \<^verbatim>\<open>playAlarm\<close> throws, and the states \<^verbatim>\<open>playAlarm\<close> and the
  "Timer finished" branch return when it does not (lemmas \<open>playAlarm_eq\<close> and
  \<open>timerFinished_eq\<close> below). With durations in range the render loop settles after at
  most two effect runs; \<open>settle\<close> is the state it then returns (lemma \<open>runEffects_settle\<close>).
  \<open>afterAlarm\<close>, \<open>afterPhase\<close> and \<open>settle\<close> are proof devices, not functions of the
  source.
\<close>

definition notificationThrows :: "platform \<Rightarrow> bool" where
  "notificationThrows p =
     (windowDefined p \<and> notificationInWindow p \<and> notificationPermission p = PermGranted \<and>
      notificationConstructor p = ConstructorThrows)"

definition afterAlarm :: "platform \<Rightarrow> app \<Rightarrow> app" where
  "afterAlarm p s =
     (if windowDefined p \<and> notificationInWindow p \<and> notificationPermission p = PermGranted
      then logOutput
             (Notification
                (if isBreak s then ''Break time is over!'' else ''Pomodoro completed!'')
                (if isBreak s then ''Time to get back to work!'' else ''Time for a break!''))
             (playBeep p s)
      else playBeep p s)"

definition afterPhase :: "platform \<Rightarrow> app \<Rightarrow> app" where
  "afterPhase p s =
     (if isBreak s
      then (afterAlarm p s)\<lparr>isBreak := False, timeLeft := workDuration s * 60,
                            isActive := False\<rparr>
      else (afterAlarm p s)
             \<lparr> completedPomodoros := completedPomodoros s + 1, isBreak := True,
               timeLeft := (if (completedPomodoros s + 1) smod 4 = 0
                            then longBreakDuration s * 60 else shortBreakDuration s * 60),
               isActive := False \<rparr>)"

definition settle :: "platform \<Rightarrow> app \<Rightarrow> app" where
  "settle p cur =
     (if timeLeft cur = 0 then effectCleanup (afterPhase p (effectCleanup cur))
      else if isActive cur \<and> 0 < timeLeft cur then armInterval (effectCleanup cur)
      else effectCleanup cur)"

text \<open>
  Concrete browsers, used to evaluate the model: one where audio and notifications
  work, one without audio and with notifications denied.
\<close>

definition workingPlatform :: platform where
  "workingPlatform =
     \<lparr> windowDefined = True, audio = AudioOk, notificationInWindow = True,
       notificationPermission = PermGranted, notificationConstructor = ConstructorWorks \<rparr>"

definition failingPlatform :: platform where
  "failingPlatform =
     \<lparr> windowDefined = True, audio = AudioNoContext, notificationInWindow = True,
       notificationPermission = PermDenied, notificationConstructor = ConstructorWorks \<rparr>"

text \<open>A browser that grants the permission and rejects the page constructor.\<close>

definition throwingPlatform :: platform where
  "throwingPlatform =
     \<lparr> windowDefined = True, audio = AudioOk, notificationInWindow = True,
       notificationPermission = PermGranted, notificationConstructor = ConstructorThrows \<rparr>"

text \<open>
  Every call of \<^verbatim>\<open>playAlarm\<close> leaves exactly one trace of \<^verbatim>\<open>playBeep\<close> in the outputs: the tone
  or the logged audio failure. Counting them counts the phase completions.
\<close>

fun isAlarmAttempt :: "host_effect \<Rightarrow> bool" where
  "isAlarmAttempt (Beep g) = True"
| "isAlarmAttempt (ConsoleLog m) = (m = ''Audio not supported or failed:'')"
| "isAlarmAttempt (Notification t b) = False"

definition alarmsPlayed :: "app \<Rightarrow> nat" where
  "alarmsPlayed s = length (filter isAlarmAttempt (outputs s))"

subsection \<open>Scenarios and concrete states\<close>

text \<open>
  With the default durations: a focus session is a press on start and 1500 ticks, a short
  break a press on start and 300 ticks.
\<close>

definition focusSession :: "event list" where
  "focusSession = Toggle # replicate 1500 Tick"

definition shortBreak :: "event list" where
  "shortBreak = Toggle # replicate 300 Tick"

definition fourSessions :: "event list" where
  "fourSessions =
     focusSession @ shortBreak @ focusSession @ shortBreak @ focusSession @ shortBreak @
     focusSession"

text \<open>The initial state after the work slider has been dragged down to 15 minutes.\<close>

definition shortenedState :: app where
  "shortenedState = initialState\<lparr>workDuration := 15\<rparr>"

text \<open>The initial state after one press on start, in a browser where audio works.\<close>

definition runningState :: app where
  "runningState =
     initialState\<lparr> isActive := True, intervalRef := Some 1, audioContextRef := True,
                   liveIntervals := [1], nextIntervalId := 2 \<rparr>"

text \<open>That state \<open>k\<close> ticks later: each tick clears the interval and arms a fresh one.\<close>

definition tickedState :: "nat \<Rightarrow> app" where
  "tickedState k =
     runningState\<lparr> timeLeft := 1500 - int k, intervalRef := Some (Suc k),
                   liveIntervals := [Suc k], nextIntervalId := Suc (Suc k) \<rparr>"

text \<open>The state the first focus session ends in, and a later, paused short break.\<close>

definition firstBreak :: app where
  "firstBreak =
     \<lparr> timeLeft = 300, isActive = False, isBreak = True, completedPomodoros = 1,
       showSettings = False, workDuration = 25, shortBreakDuration = 5,
       longBreakDuration = 15, alarmVolume = 1 / 2, intervalRef = Some 1500,
       audioContextRef = True, liveIntervals = [], nextIntervalId = 1501,
       outputs = [Beep (3 / 20), Notification ''Pomodoro completed!'' ''Time for a break!''] \<rparr>"

definition pausedBreak :: app where
  "pausedBreak = firstBreak\<lparr>timeLeft := 200, completedPomodoros := 3\<rparr>"

text \<open>
  A duration edit that keeps \<open>timeLeft\<close> within the duration of the running phase as the
  display computes it; every other event qualifies.
\<close>

fun withinAfterEdit :: "app \<Rightarrow> event \<Rightarrow> bool" where
  "withinAfterEdit s (SetWorkDuration v) = (timeLeft s \<le> totalDuration (s\<lparr>workDuration := v\<rparr>))"
| "withinAfterEdit s (SetShortBreakDuration v) =
     (timeLeft s \<le> totalDuration (s\<lparr>shortBreakDuration := v\<rparr>))"
| "withinAfterEdit s (SetLongBreakDuration v) =
     (timeLeft s \<le> totalDuration (s\<lparr>longBreakDuration := v\<rparr>))"
| "withinAfterEdit s _ = True"

text \<open>
  The first break after the settings have been opened and the short-break slider dragged
  to 3 minutes.
\<close>

definition editedBreak :: app where
  "editedBreak = firstBreak\<lparr>showSettings := True, shortBreakDuration := 3\<rparr>"

text \<open>The events that move one of the two break sliders.\<close>

fun isBreakDurationEdit :: "event \<Rightarrow> bool" where
  "isBreakDurationEdit (SetShortBreakDuration v) = True"
| "isBreakDurationEdit (SetLongBreakDuration v) = True"
| "isBreakDurationEdit _ = False"

section \<open>Basic facts\<close>

lemma logOutput_fields [simp]:
  "timeLeft (logOutput x s) = timeLeft s"
  "isActive (logOutput x s) = isActive s"
  "isBreak (logOutput x s) = isBreak s"
  "completedPomodoros (logOutput x s) = completedPomodoros s"
  "showSettings (logOutput x s) = showSettings s"
  "workDuration (logOutput x s) = workDuration s"
  "shortBreakDuration (logOutput x s) = shortBreakDuration s"
  "longBreakDuration (logOutput x s) = longBreakDuration s"
  "alarmVolume (logOutput x s) = alarmVolume s"
  "intervalRef (logOutput x s) = intervalRef s"
  "audioContextRef (logOutput x s) = audioContextRef s"
  "liveIntervals (logOutput x s) = liveIntervals s"
  "nextIntervalId (logOutput x s) = nextIntervalId s"
  "outputs (logOutput x s) = outputs s @ [x]"
  by (simp_all add: logOutput_def)

lemma playBeep_fields [simp]:
  "timeLeft (playBeep p s) = timeLeft s"
  "isActive (playBeep p s) = isActive s"
  "isBreak (playBeep p s) = isBreak s"
  "completedPomodoros (playBeep p s) = completedPomodoros s"
  "showSettings (playBeep p s) = showSettings s"
  "workDuration (playBeep p s) = workDuration s"
  "shortBreakDuration (playBeep p s) = shortBreakDuration s"
  "longBreakDuration (playBeep p s) = longBreakDuration s"
  "alarmVolume (playBeep p s) = alarmVolume s"
  "intervalRef (playBeep p s) = intervalRef s"
  "liveIntervals (playBeep p s) = liveIntervals s"
  "nextIntervalId (playBeep p s) = nextIntervalId s"
  by (simp_all add: playBeep_def)

lemma afterAlarm_fields [simp]:
  "timeLeft (afterAlarm p s) = timeLeft s"
  "isActive (afterAlarm p s) = isActive s"
  "isBreak (afterAlarm p s) = isBreak s"
  "completedPomodoros (afterAlarm p s) = completedPomodoros s"
  "showSettings (afterAlarm p s) = showSettings s"
  "workDuration (afterAlarm p s) = workDuration s"
  "shortBreakDuration (afterAlarm p s) = shortBreakDuration s"
  "longBreakDuration (afterAlarm p s) = longBreakDuration s"
  "alarmVolume (afterAlarm p s) = alarmVolume s"
  "intervalRef (afterAlarm p s) = intervalRef s"
  "liveIntervals (afterAlarm p s) = liveIntervals s"
  "nextIntervalId (afterAlarm p s) = nextIntervalId s"
  by (simp_all add: afterAlarm_def)

lemma clearIntervalRef_fields [simp]:
  "timeLeft (clearIntervalRef s) = timeLeft s"
  "isActive (clearIntervalRef s) = isActive s"
  "isBreak (clearIntervalRef s) = isBreak s"
  "completedPomodoros (clearIntervalRef s) = completedPomodoros s"
  "showSettings (clearIntervalRef s) = showSettings s"
  "workDuration (clearIntervalRef s) = workDuration s"
  "shortBreakDuration (clearIntervalRef s) = shortBreakDuration s"
  "longBreakDuration (clearIntervalRef s) = longBreakDuration s"
  "alarmVolume (clearIntervalRef s) = alarmVolume s"
  "intervalRef (clearIntervalRef s) = intervalRef s"
  "audioContextRef (clearIntervalRef s) = audioContextRef s"
  "nextIntervalId (clearIntervalRef s) = nextIntervalId s"
  "outputs (clearIntervalRef s) = outputs s"
  by (simp_all add: clearIntervalRef_def split: option.split)

lemma clearIntervalRef_live:
  "liveIntervals (clearIntervalRef s) =
     (case intervalRef s of None \<Rightarrow> liveIntervals s | Some i \<Rightarrow> removeAll i (liveIntervals s))"
  by (simp add: clearIntervalRef_def split: option.split)

lemma armInterval_fields [simp]:
  "timeLeft (armInterval s) = timeLeft s"
  "isActive (armInterval s) = isActive s"
  "isBreak (armInterval s) = isBreak s"
  "completedPomodoros (armInterval s) = completedPomodoros s"
  "showSettings (armInterval s) = showSettings s"
  "workDuration (armInterval s) = workDuration s"
  "shortBreakDuration (armInterval s) = shortBreakDuration s"
  "longBreakDuration (armInterval s) = longBreakDuration s"
  "alarmVolume (armInterval s) = alarmVolume s"
  "audioContextRef (armInterval s) = audioContextRef s"
  "outputs (armInterval s) = outputs s"
  "intervalRef (armInterval s) = Some (nextIntervalId s)"
  "liveIntervals (armInterval s) = liveIntervals s @ [nextIntervalId s]"
  by (simp_all add: armInterval_def)

lemma afterPhase_fields [simp]:
  "isActive (afterPhase p s) = False"
  "isBreak (afterPhase p s) = (\<not> isBreak s)"
  "completedPomodoros (afterPhase p s) =
     (if isBreak s then completedPomodoros s else completedPomodoros s + 1)"
  "timeLeft (afterPhase p s) =
     (if isBreak s then workDuration s * 60
      else if (completedPomodoros s + 1) smod 4 = 0 then longBreakDuration s * 60
      else shortBreakDuration s * 60)"
  "showSettings (afterPhase p s) = showSettings s"
  "workDuration (afterPhase p s) = workDuration s"
  "shortBreakDuration (afterPhase p s) = shortBreakDuration s"
  "longBreakDuration (afterPhase p s) = longBreakDuration s"
  "alarmVolume (afterPhase p s) = alarmVolume s"
  "intervalRef (afterPhase p s) = intervalRef s"
  "liveIntervals (afterPhase p s) = liveIntervals s"
  "nextIntervalId (afterPhase p s) = nextIntervalId s"
  by (simp_all add: afterPhase_def)

text \<open>The source functions in terms of the states they return when nothing throws.\<close>

lemma playAlarm_eq:
  "playAlarm p s =
     (if notificationThrows p then Inl NotificationTypeError else Inr (afterAlarm p s))"
  by (simp add: playAlarm_def notificationThrows_def afterAlarm_def Let_def)

lemma timerFinished_eq:
  "timerFinished p s =
     (if notificationThrows p then Inl NotificationTypeError else Inr (afterPhase p s))"
  by (simp add: timerFinished_def playAlarm_eq afterPhase_def Let_def)

lemma timerEffect_finished:
  "timeLeft s = 0 \<Longrightarrow>
   timerEffect p s =
     (if notificationThrows p then Inl NotificationTypeError else Inr (afterPhase p s))"
  by (simp add: timerEffect_def timerFinished_eq)

lemma timerEffect_counting:
  "timeLeft s \<noteq> 0 \<Longrightarrow>
   timerEffect p s = Inr (if isActive s \<and> 0 < timeLeft s then armInterval s else s)"
  by (simp add: timerEffect_def)

lemma runEffects_same: "deps cur = deps prev \<Longrightarrow> runEffects p prev cur = Some (Inr cur)"
  by (subst runEffects.simps) simp

lemma runEffects_changed:
  "deps cur \<noteq> deps prev \<Longrightarrow>
     runEffects p prev cur =
       (case timerEffect p (effectCleanup cur) of
          Inl err \<Rightarrow> Some (Inl err)
        | Inr next \<Rightarrow> runEffects p cur next)"
  by (subst runEffects.simps) simp

lemma runEffects_counting:
  assumes "deps cur \<noteq> deps prev" and "timeLeft cur \<noteq> 0"
  shows "runEffects p prev cur = Some (Inr (settle p cur))"
proof -
  have eff: "timerEffect p (effectCleanup cur) = Inr (settle p cur)"
    using assms(2) by (simp add: timerEffect_counting effectCleanup_def settle_def)
  have "deps (settle p cur) = deps cur"
    using assms(2) by (simp add: settle_def effectCleanup_def deps_def)
  then show ?thesis
    using assms(1) by (simp add: runEffects_changed eff runEffects_same)
qed

lemma runEffects_throws:
  assumes "deps cur \<noteq> deps prev" and "timeLeft cur = 0" and "notificationThrows p"
  shows "runEffects p prev cur = Some (Inl NotificationTypeError)"
  using assms by (simp add: runEffects_changed timerEffect_finished effectCleanup_def)

lemma runEffects_finished:
  assumes "deps cur \<noteq> deps prev" and "timeLeft cur = 0" and "\<not> notificationThrows p"
    and "timeLeft (afterPhase p cur) \<noteq> 0"
  shows "runEffects p prev cur = Some (Inr (settle p cur))"
proof -
  let ?f = "afterPhase p (effectCleanup cur)"
  have eff: "timerEffect p (effectCleanup cur) = Inr ?f"
    using assms(2,3) by (simp add: timerEffect_finished effectCleanup_def)
  have changed: "deps ?f \<noteq> deps cur"
    by (simp add: deps_def effectCleanup_def)
  have nz: "timeLeft ?f \<noteq> 0"
    using assms(4) by (simp add: effectCleanup_def split: if_splits)
  have idle: "settle p ?f = effectCleanup ?f"
    using nz by (simp add: settle_def)
  have "runEffects p prev cur = runEffects p cur ?f"
    using assms(1) eff by (simp add: runEffects_changed)
  also have "\<dots> = Some (Inr (settle p ?f))"
    using changed nz by (rule runEffects_counting)
  finally have "runEffects p prev cur = Some (Inr (effectCleanup ?f))"
    by (simp only: idle)
  moreover have "settle p cur = effectCleanup ?f"
    using assms(2) by (simp add: settle_def)
  ultimately show ?thesis by simp
qed

lemma toggleTimer_fields [simp]:
  "timeLeft (toggleTimer p s) = timeLeft s"
  "isActive (toggleTimer p s) = (\<not> isActive s)"
  "isBreak (toggleTimer p s) = isBreak s"
  "completedPomodoros (toggleTimer p s) = completedPomodoros s"
  "showSettings (toggleTimer p s) = showSettings s"
  "workDuration (toggleTimer p s) = workDuration s"
  "shortBreakDuration (toggleTimer p s) = shortBreakDuration s"
  "longBreakDuration (toggleTimer p s) = longBreakDuration s"
  "alarmVolume (toggleTimer p s) = alarmVolume s"
  "intervalRef (toggleTimer p s) = intervalRef s"
  "liveIntervals (toggleTimer p s) = liveIntervals s"
  "nextIntervalId (toggleTimer p s) = nextIntervalId s"
  by (simp_all add: toggleTimer_def Let_def)

lemma resetTimer_fields [simp]:
  "timeLeft (resetTimer s) = workDuration s * 60"
  "isActive (resetTimer s) = False"
  "isBreak (resetTimer s) = False"
  "completedPomodoros (resetTimer s) = completedPomodoros s"
  "showSettings (resetTimer s) = showSettings s"
  "workDuration (resetTimer s) = workDuration s"
  "shortBreakDuration (resetTimer s) = shortBreakDuration s"
  "longBreakDuration (resetTimer s) = longBreakDuration s"
  "alarmVolume (resetTimer s) = alarmVolume s"
  "intervalRef (resetTimer s) = intervalRef s"
  "audioContextRef (resetTimer s) = audioContextRef s"
  "nextIntervalId (resetTimer s) = nextIntervalId s"
  "outputs (resetTimer s) = outputs s"
  by (simp_all add: resetTimer_def)

lemma resetTimer_live: "liveIntervals (resetTimer s) = liveIntervals (clearIntervalRef s)"
  by (simp add: resetTimer_def clearIntervalRef_def split: option.split)

lemma resetSession_fields [simp]:
  "timeLeft (resetSession s) = workDuration s * 60"
  "isActive (resetSession s) = False"
  "isBreak (resetSession s) = False"
  "completedPomodoros (resetSession s) = 0"
  "showSettings (resetSession s) = showSettings s"
  "workDuration (resetSession s) = workDuration s"
  "shortBreakDuration (resetSession s) = shortBreakDuration s"
  "longBreakDuration (resetSession s) = longBreakDuration s"
  "alarmVolume (resetSession s) = alarmVolume s"
  "intervalRef (resetSession s) = intervalRef s"
  "audioContextRef (resetSession s) = audioContextRef s"
  "nextIntervalId (resetSession s) = nextIntervalId s"
  "outputs (resetSession s) = outputs s"
  "liveIntervals (resetSession s) = liveIntervals (resetTimer s)"
  by (simp_all add: resetSession_def)

lemma intervalCallback_fields [simp]:
  "timeLeft (intervalCallback s) = (if liveIntervals s = [] then timeLeft s else timeLeft s - 1)"
  "isActive (intervalCallback s) = isActive s"
  "isBreak (intervalCallback s) = isBreak s"
  "completedPomodoros (intervalCallback s) = completedPomodoros s"
  "showSettings (intervalCallback s) = showSettings s"
  "workDuration (intervalCallback s) = workDuration s"
  "shortBreakDuration (intervalCallback s) = shortBreakDuration s"
  "longBreakDuration (intervalCallback s) = longBreakDuration s"
  "alarmVolume (intervalCallback s) = alarmVolume s"
  "intervalRef (intervalCallback s) = intervalRef s"
  "audioContextRef (intervalCallback s) = audioContextRef s"
  "liveIntervals (intervalCallback s) = liveIntervals s"
  "nextIntervalId (intervalCallback s) = nextIntervalId s"
  "outputs (intervalCallback s) = outputs s"
  by (simp_all add: intervalCallback_def)

lemma tickSourceOk_clear: "tickSourceOk s \<Longrightarrow> liveIntervals (clearIntervalRef s) = []"
  by (auto simp: tickSourceOk_def clearIntervalRef_live split: option.splits if_splits)

lemma handle_clear:
  "liveIntervals (clearIntervalRef s) = [] \<Longrightarrow>
   liveIntervals (clearIntervalRef (handle p e s)) = []"
  by (cases e)
     (simp_all add: clearIntervalRef_live resetTimer_live split: option.splits)

lemma handle_validConfig:
  "validConfig s \<Longrightarrow> validEvent e \<Longrightarrow> validConfig (handle p e s)"
  by (cases e) (simp_all add: validConfig_def)

lemma handle_timeLeft:
  "validConfig s \<Longrightarrow> 0 < timeLeft s \<Longrightarrow> 0 \<le> timeLeft (handle p e s)"
  by (cases e) (simp_all add: validConfig_def)

lemma handle_completed:
  "0 \<le> completedPomodoros s \<Longrightarrow> 0 \<le> completedPomodoros (handle p e s)"
  by (cases e) simp_all

lemma afterPhase_timeLeft_pos:
  "validConfig s \<Longrightarrow> 0 < timeLeft (afterPhase p s)"
  by (simp add: validConfig_def)

lemma runEffects_settle:
  assumes "validConfig cur" and "deps cur \<noteq> deps prev"
  shows "runEffects p prev cur =
         Some (if timeLeft cur = 0 \<and> notificationThrows p then Inl NotificationTypeError
               else Inr (settle p cur))"
proof (cases "timeLeft cur = 0")
  case True
  have "timeLeft (afterPhase p cur) \<noteq> 0"
    using afterPhase_timeLeft_pos [OF assms(1), of p] by simp
  with assms(2) True show ?thesis
    by (simp add: runEffects_finished runEffects_throws)
next
  case False
  with assms(2) show ?thesis
    by (simp add: runEffects_counting)
qed

lemma settle_settled:
  assumes "validConfig cur" and "0 \<le> timeLeft cur" and "0 \<le> completedPomodoros cur"
    and "liveIntervals (clearIntervalRef cur) = []"
  shows "settled (settle p cur)"
proof (cases "timeLeft cur = 0")
  case True
  then show ?thesis
    using assms
    by (auto simp: settle_def settled_def effectCleanup_def tickSourceOk_def
        clearIntervalRef_live validConfig_def split: option.splits)
next
  case False
  then show ?thesis
    using assms
    by (simp add: settle_def settled_def effectCleanup_def tickSourceOk_def validConfig_def)
qed

lemma handle_same_deps_settled:
  assumes "settled s" and "deps (handle p e s) = deps s"
  shows "settled (handle p e s)"
proof (cases e)
  case Reset
  then show ?thesis
    using assms
    by (auto simp: settled_def deps_def tickSourceOk_def validConfig_def resetTimer_live
        clearIntervalRef_live split: option.splits)
next
  case ResetSession
  then show ?thesis
    using assms
    by (auto simp: settled_def deps_def tickSourceOk_def validConfig_def resetTimer_live
        clearIntervalRef_live split: option.splits)
qed (use assms in \<open>auto simp: settled_def deps_def tickSourceOk_def validConfig_def
        split: if_splits option.splits\<close>)

lemma step_eq:
  assumes "validConfig s" and "validEvent e"
  shows "step p e s =
         Some (if deps (handle p e s) = deps s then Inr (handle p e s)
               else if timeLeft (handle p e s) = 0 \<and> notificationThrows p
               then Inl NotificationTypeError
               else Inr (settle p (handle p e s)))"
  using handle_validConfig [OF assms, of p]
  by (simp add: step_def runEffects_same runEffects_settle)

text \<open>An event throws exactly when it ends a phase in a browser whose constructor throws.\<close>

lemma step_throws:
  assumes "settled s" and "validEvent e" and "timeLeft (handle p e s) = 0"
    and "notificationThrows p"
  shows "step p e s = Some (Inl NotificationTypeError)"
proof -
  have vc: "validConfig s" and tl: "0 < timeLeft s" using assms(1) by (simp_all add: settled_def)
  have "deps (handle p e s) \<noteq> deps s" using tl assms(3) by (simp add: deps_def)
  then show ?thesis using assms(3,4) by (simp add: step_eq [OF vc assms(2)])
qed

lemma step_returns:
  assumes "settled s" and "validEvent e"
    and "timeLeft (handle p e s) = 0 \<longrightarrow> \<not> notificationThrows p"
  shows "step p e s =
         Some (Inr (if deps (handle p e s) = deps s then handle p e s
                    else settle p (handle p e s)))"
proof -
  have vc: "validConfig s" using assms(1) by (simp add: settled_def)
  show ?thesis using assms(3) by (auto simp: step_eq [OF vc assms(2)])
qed

lemma step_Inr:
  assumes "settled s" and "validEvent e" and "step p e s = Some (Inr s')"
  shows "s' = (if deps (handle p e s) = deps s then handle p e s else settle p (handle p e s))"
proof -
  have vc: "validConfig s" using assms(1) by (simp add: settled_def)
  show ?thesis using assms(3) by (auto simp: step_eq [OF vc assms(2)] split: if_splits)
qed

lemma step_settled:
  assumes "settled s" and "validEvent e" and "step p e s = Some (Inr s')"
  shows "settled s'"
proof -
  have vc: "validConfig s" and tl: "0 < timeLeft s" and cp: "0 \<le> completedPomodoros s"
    and ts: "tickSourceOk s"
    using assms(1) by (simp_all add: settled_def)
  let ?h = "handle p e s"
  have "settled (settle p ?h)"
    by (rule settle_settled)
       (simp_all add: handle_validConfig [OF vc assms(2)] handle_timeLeft [OF vc tl]
          handle_completed [OF cp] handle_clear [OF tickSourceOk_clear [OF ts]])
  moreover have "deps ?h = deps s \<Longrightarrow> settled ?h"
    using assms(1) by (rule handle_same_deps_settled)
  ultimately show ?thesis
    by (simp add: step_Inr [OF assms])
qed

text \<open>Mounting the component runs the effect once; in the initial state it does nothing.\<close>

lemma mount_effect: "timerEffect p (effectCleanup initialState) = Inr initialState"
  by (simp add: timerEffect_def effectCleanup_def clearIntervalRef_def initialState_def)

lemma initialState_settled: "settled initialState"
  by (simp add: settled_def validConfig_def tickSourceOk_def initialState_def)

lemma reachableBy_settled: "reachableBy ok s \<Longrightarrow> settled s"
proof (induction rule: reachableBy.induct)
  case rb_init
  show ?case by (rule initialState_settled)
next
  case (rb_step s e p s')
  then show ?case using step_settled [of s e p s'] by auto
qed

lemma smod4_dvd: "(k::int) smod 4 = 0 \<longleftrightarrow> 4 dvd k"
proof -
  have "k smod 4 = sgn k * (\<bar>k\<bar> mod 4)" by (simp add: signed_modulo_int_def)
  also have "\<dots> = 0 \<longleftrightarrow> \<bar>k\<bar> mod 4 = 0" by (cases "k = 0") (simp_all add: sgn_if)
  also have "\<dots> \<longleftrightarrow> 4 dvd \<bar>k\<bar>" by (simp add: dvd_eq_mod_eq_0)
  finally show ?thesis by simp
qed

lemma alarmsPlayed_afterAlarm: "alarmsPlayed (afterAlarm p s) = Suc (alarmsPlayed s)"
  by (simp add: alarmsPlayed_def afterAlarm_def playBeep_def logOutput_def)

lemma alarmsPlayed_afterPhase: "alarmsPlayed (afterPhase p s) = Suc (alarmsPlayed s)"
  using alarmsPlayed_afterAlarm [of p s]
  by (simp add: alarmsPlayed_def afterPhase_def)

lemma alarmsPlayed_cong: "outputs s = outputs t \<Longrightarrow> alarmsPlayed s = alarmsPlayed t"
  by (simp add: alarmsPlayed_def)

lemma settled_live: "settled s \<Longrightarrow> isActive s \<Longrightarrow> liveIntervals s \<noteq> []"
  by (auto simp: settled_def tickSourceOk_def split: option.splits)

lemma tick_counting:
  assumes "settled s" and "isActive s" and "1 < timeLeft s"
  shows "step p Tick s = Some (Inr (armInterval (clearIntervalRef (intervalCallback s))))"
proof -
  have live: "liveIntervals s \<noteq> []" using assms(1,2) by (rule settled_live)
  have ch: "deps (handle p Tick s) \<noteq> deps s" using live by (simp add: deps_def)
  have "step p Tick s =
        Some (Inr (if deps (handle p Tick s) = deps s then handle p Tick s
                   else settle p (handle p Tick s)))"
    using assms(1) by (rule step_returns) (use assms(3) live in simp_all)
  then show ?thesis
    using assms(2,3) live ch by (simp add: settle_def effectCleanup_def)
qed

lemma tick_finishing:
  assumes "settled s" and "isActive s" and "timeLeft s = 1" and "\<not> notificationThrows p"
  shows "step p Tick s =
         Some (Inr (clearIntervalRef (afterPhase p (clearIntervalRef (intervalCallback s)))))"
proof -
  have live: "liveIntervals s \<noteq> []" using assms(1,2) by (rule settled_live)
  have ch: "deps (handle p Tick s) \<noteq> deps s" using live by (simp add: deps_def)
  have "step p Tick s =
        Some (Inr (if deps (handle p Tick s) = deps s then handle p Tick s
                   else settle p (handle p Tick s)))"
    using assms(1) by (rule step_returns) (use assms(4) in simp_all)
  then show ?thesis
    using assms(2,3) live ch by (simp add: settle_def effectCleanup_def)
qed

lemma tick_throwing:
  assumes "settled s" and "isActive s" and "timeLeft s = 1" and "notificationThrows p"
  shows "step p Tick s = Some (Inl NotificationTypeError)"
proof -
  have live: "liveIntervals s \<noteq> []" using assms(1,2) by (rule settled_live)
  show ?thesis
    using assms(1) _ _ assms(4) by (rule step_throws) (use assms(3) live in simp_all)
qed

lemma run_append:
  "run p (xs @ ys) s =
     (case run p xs s of
        None \<Rightarrow> None
      | Some (Inl err) \<Rightarrow> Some (Inl err)
      | Some (Inr s') \<Rightarrow> run p ys s')"
  by (induction xs arbitrary: s) (simp_all split: option.split sum.split)

lemma ticks_counting:
  assumes "settled s" and "isActive s" and "int k < timeLeft s"
  shows "\<exists>sk. run p (replicate k Tick) s = Some (Inr sk) \<and> settled sk \<and>
           deps sk = deps (s\<lparr>timeLeft := timeLeft s - int k\<rparr>) \<and> outputs sk = outputs s"
  using assms
proof (induction k arbitrary: s)
  case 0
  then show ?case by (simp add: deps_def)
next
  case (Suc k)
  let ?s1 = "armInterval (clearIntervalRef (intervalCallback s))"
  have big: "1 < timeLeft s" using Suc.prems(3) by simp
  have st: "step p Tick s = Some (Inr ?s1)"
    using Suc.prems(1,2) big by (rule tick_counting)
  have live: "liveIntervals s \<noteq> []" using Suc.prems(1,2) by (rule settled_live)
  have set1: "settled ?s1"
    using Suc.prems(1) _ st by (rule step_settled) simp
  have act1: "isActive ?s1" using Suc.prems(2) by simp
  have tl1: "timeLeft ?s1 = timeLeft s - 1" using live by simp
  have "int k < timeLeft ?s1" using Suc.prems(3) tl1 by simp
  from Suc.IH [OF set1 act1 this]
  obtain sk where sk: "run p (replicate k Tick) ?s1 = Some (Inr sk)" "settled sk"
      "deps sk = deps (?s1\<lparr>timeLeft := timeLeft ?s1 - int k\<rparr>)" "outputs sk = outputs ?s1"
    by blast
  have "deps sk = deps (s\<lparr>timeLeft := timeLeft s - int (Suc k)\<rparr>)"
    using sk(3) tl1 by (simp add: deps_def)
  moreover have "outputs sk = outputs s" using sk(4) by simp
  ultimately show ?case using st sk(1,2) by simp
qed

lemma deps_fields:
  "deps a = deps b \<longleftrightarrow>
     isActive a = isActive b \<and> timeLeft a = timeLeft b \<and> isBreak a = isBreak b \<and>
     workDuration a = workDuration b \<and> shortBreakDuration a = shortBreakDuration b \<and>
     longBreakDuration a = longBreakDuration b \<and> completedPomodoros a = completedPomodoros b"
  by (auto simp: deps_def)

lemma ticks_finishing:
  assumes "settled s" and "isActive s" and "timeLeft s = int n" and "\<not> notificationThrows p"
  shows "\<exists>s'. run p (replicate n Tick) s = Some (Inr s') \<and> settled s' \<and>
           deps s' = deps (afterPhase p (s\<lparr>timeLeft := 0\<rparr>)) \<and>
           alarmsPlayed s' = Suc (alarmsPlayed s)"
proof -
  have "0 < timeLeft s" using assms(1) by (simp add: settled_def)
  then obtain m where n: "n = Suc m" using assms(3) by (cases n) simp_all
  have "int m < timeLeft s" using assms(3) n by simp
  from ticks_counting [OF assms(1,2) this, of p]
  obtain sk where sk: "run p (replicate m Tick) s = Some (Inr sk)" "settled sk"
      "deps sk = deps (s\<lparr>timeLeft := timeLeft s - int m\<rparr>)" "outputs sk = outputs s"
    by blast
  have f: "isActive sk" "timeLeft sk = 1" "isBreak sk = isBreak s"
      "completedPomodoros sk = completedPomodoros s" "workDuration sk = workDuration s"
      "shortBreakDuration sk = shortBreakDuration s" "longBreakDuration sk = longBreakDuration s"
    using sk(3) assms(2,3) n by (simp_all add: deps_fields)
  let ?s' = "clearIntervalRef (afterPhase p (clearIntervalRef (intervalCallback sk)))"
  have last: "step p Tick sk = Some (Inr ?s')"
    using sk(2) f(1,2) assms(4) by (rule tick_finishing)
  have set': "settled ?s'"
    using sk(2) _ last by (rule step_settled) simp
  have d: "deps ?s' = deps (afterPhase p (s\<lparr>timeLeft := 0\<rparr>))"
    using f by (simp add: deps_fields)
  have "alarmsPlayed ?s' = Suc (alarmsPlayed (clearIntervalRef (intervalCallback sk)))"
    using alarmsPlayed_afterPhase [of p "clearIntervalRef (intervalCallback sk)"]
    by (simp add: alarmsPlayed_def)
  also have "alarmsPlayed (clearIntervalRef (intervalCallback sk)) = alarmsPlayed s"
    using sk(4) by (simp add: alarmsPlayed_def)
  finally have a: "alarmsPlayed ?s' = Suc (alarmsPlayed s)" .
  have "replicate n Tick = replicate m Tick @ [Tick]"
    using n by (simp add: replicate_append_same)
  then have "run p (replicate n Tick) s = Some (Inr ?s')"
    using sk(1) last by (simp add: run_append)
  with set' d a show ?thesis by blast
qed

lemma toggle_starts:
  assumes "settled s" and "\<not> isActive s"
  shows "step p Toggle s = Some (Inr (armInterval (clearIntervalRef (toggleTimer p s))))"
proof -
  have tl: "0 < timeLeft s" using assms(1) by (simp add: settled_def)
  have ch: "deps (handle p Toggle s) \<noteq> deps s" by (simp add: deps_def)
  have "step p Toggle s =
        Some (Inr (if deps (handle p Toggle s) = deps s then handle p Toggle s
                   else settle p (handle p Toggle s)))"
    using assms(1) by (rule step_returns) (use tl in simp_all)
  then show ?thesis
    using assms(2) tl ch by (simp add: settle_def effectCleanup_def)
qed

lemma toggle_pauses:
  assumes "settled s" and "isActive s"
  shows "step p Toggle s = Some (Inr (clearIntervalRef (toggleTimer p s)))"
proof -
  have tl: "0 < timeLeft s" using assms(1) by (simp add: settled_def)
  have ch: "deps (handle p Toggle s) \<noteq> deps s" by (simp add: deps_def)
  have "step p Toggle s =
        Some (Inr (if deps (handle p Toggle s) = deps s then handle p Toggle s
                   else settle p (handle p Toggle s)))"
    using assms(1) by (rule step_returns) (use tl in simp_all)
  then show ?thesis
    using assms(2) tl ch by (simp add: settle_def effectCleanup_def)
qed

lemma phase_run:
  assumes "settled s" and "\<not> isActive s" and "timeLeft s = int n"
    and "\<not> notificationThrows p"
  shows "\<exists>s'. run p (Toggle # replicate n Tick) s = Some (Inr s') \<and> settled s' \<and>
           deps s' = deps (afterPhase p (s\<lparr>timeLeft := 0\<rparr>))"
proof -
  let ?s1 = "armInterval (clearIntervalRef (toggleTimer p s))"
  have st: "step p Toggle s = Some (Inr ?s1)" using assms(1,2) by (rule toggle_starts)
  have set1: "settled ?s1" using assms(1) _ st by (rule step_settled) simp
  have act: "isActive ?s1" using assms(2) by simp
  have tl: "timeLeft ?s1 = int n" using assms(3) by simp
  from ticks_finishing [OF set1 act tl assms(4)]
  obtain s' where s': "run p (replicate n Tick) ?s1 = Some (Inr s')" "settled s'"
      "deps s' = deps (afterPhase p (?s1\<lparr>timeLeft := 0\<rparr>))"
    by blast
  have "deps s' = deps (afterPhase p (s\<lparr>timeLeft := 0\<rparr>))"
    using s'(3) by (simp add: deps_fields)
  then show ?thesis using st s'(1,2) by simp
qed

lemma phase_run_deps:
  assumes "settled s" and "deps s = (False, int n, b, w, sh, lo, c)"
    and "\<not> notificationThrows p"
  shows "\<exists>s'. run p (Toggle # replicate n Tick) s = Some (Inr s') \<and> settled s' \<and>
           deps s' = (False,
                      (if b then w * 60 else if (c + 1) smod 4 = 0 then lo * 60 else sh * 60),
                      \<not> b, w, sh, lo, (if b then c else c + 1))"
proof -
  have f: "\<not> isActive s" "timeLeft s = int n" "isBreak s = b" "workDuration s = w"
    "shortBreakDuration s = sh" "longBreakDuration s = lo" "completedPomodoros s = c"
    using assms(2) by (simp_all add: deps_def)
  from phase_run [OF assms(1) f(1,2) assms(3)]
  obtain s' where s': "run p (Toggle # replicate n Tick) s = Some (Inr s')" "settled s'"
      "deps s' = deps (afterPhase p (s\<lparr>timeLeft := 0\<rparr>))"
    by blast
  have "deps (afterPhase p (s\<lparr>timeLeft := 0\<rparr>)) =
        (False, (if b then w * 60 else if (c + 1) smod 4 = 0 then lo * 60 else sh * 60),
         \<not> b, w, sh, lo, (if b then c else c + 1))"
    using f by (simp add: deps_def)
  with s' show ?thesis by auto
qed

lemma four_sessions_run:
  assumes nt: "\<not> notificationThrows p"
  shows "\<exists>s'. run p fourSessions initialState = Some (Inr s') \<and> settled s' \<and>
        deps s' = (False, 900, True, 25, 5, 15, 4)"
proof -
  have d0: "deps initialState = (False, int 1500, False, 25, 5, 15, 0)"
    by (simp add: deps_def initialState_def)
  from phase_run_deps [OF initialState_settled d0 nt]
  obtain s1 where s1: "run p focusSession initialState = Some (Inr s1)" "settled s1"
      "deps s1 = (False, int 300, True, 25, 5, 15, 1)"
    by (auto simp: focusSession_def signed_modulo_int_def)
  from phase_run_deps [OF s1(2,3) nt]
  obtain s2 where s2: "run p shortBreak s1 = Some (Inr s2)" "settled s2"
      "deps s2 = (False, int 1500, False, 25, 5, 15, 1)"
    by (auto simp: shortBreak_def)
  from phase_run_deps [OF s2(2,3) nt]
  obtain s3 where s3: "run p focusSession s2 = Some (Inr s3)" "settled s3"
      "deps s3 = (False, int 300, True, 25, 5, 15, 2)"
    by (auto simp: focusSession_def signed_modulo_int_def)
  from phase_run_deps [OF s3(2,3) nt]
  obtain s4 where s4: "run p shortBreak s3 = Some (Inr s4)" "settled s4"
      "deps s4 = (False, int 1500, False, 25, 5, 15, 2)"
    by (auto simp: shortBreak_def)
  from phase_run_deps [OF s4(2,3) nt]
  obtain s5 where s5: "run p focusSession s4 = Some (Inr s5)" "settled s5"
      "deps s5 = (False, int 300, True, 25, 5, 15, 3)"
    by (auto simp: focusSession_def signed_modulo_int_def)
  from phase_run_deps [OF s5(2,3) nt]
  obtain s6 where s6: "run p shortBreak s5 = Some (Inr s6)" "settled s6"
      "deps s6 = (False, int 1500, False, 25, 5, 15, 3)"
    by (auto simp: shortBreak_def)
  from phase_run_deps [OF s6(2,3) nt]
  obtain s7 where s7: "run p focusSession s6 = Some (Inr s7)" "settled s7"
      "deps s7 = (False, 900, True, 25, 5, 15, 4)"
    by (auto simp: focusSession_def signed_modulo_int_def)
  have "run p fourSessions initialState = Some (Inr s7)"
    using s1(1) s2(1) s3(1) s4(1) s5(1) s6(1) s7(1)
    by (simp add: fourSessions_def run_append)
  with s7(2,3) show ?thesis by blast
qed

lemma timerState_deps: "deps a = deps b \<Longrightarrow> timerState a = timerState b"
  by (simp add: deps_fields timerState_def)

lemma totalDuration_deps: "deps a = deps b \<Longrightarrow> totalDuration a = totalDuration b"
  by (simp add: deps_fields totalDuration_def)

lemma timeLeft_deps: "deps a = deps b \<Longrightarrow> timeLeft a = timeLeft b"
  by (simp add: deps_fields)

lemma deps_settle:
  "deps (settle p cur) =
     (if timeLeft cur = 0 then deps (afterPhase p cur) else deps cur)"
  by (simp add: settle_def deps_def effectCleanup_def)

lemma step_deps:
  assumes "settled s" and "validEvent e" and "step p e s = Some (Inr s')"
  shows "deps s' = (if timeLeft (handle p e s) = 0 then deps (afterPhase p (handle p e s))
                    else deps (handle p e s))"
proof -
  have tl: "0 < timeLeft s" using assms(1) by (simp add: settled_def)
  have "deps (handle p e s) = deps s \<Longrightarrow> timeLeft (handle p e s) \<noteq> 0"
    using tl by (simp add: deps_fields)
  then show ?thesis
    by (auto simp: step_Inr [OF assms] deps_settle)
qed

lemma handle_nonTick_timeLeft:
  "validConfig s \<Longrightarrow> 0 < timeLeft s \<Longrightarrow> e \<noteq> Tick \<Longrightarrow> timeLeft (handle p e s) \<noteq> 0"
  by (cases e) (simp_all add: validConfig_def)

lemma handle_config_edit:
  "isConfigEdit e \<Longrightarrow> timerState (handle p e s) = timerState s"
  by (cases e) (simp_all add: timerState_def)

lemma break_start_duration:
  assumes "\<not> isBreak s" and "0 \<le> completedPomodoros s"
  shows "totalDuration (afterPhase p s) = timeLeft (afterPhase p s)"
  using assms by (simp add: totalDuration_def)

lemma reachable_init: "reachable initialState"
  by (simp add: reachable_def rb_init)

lemma reachable_step:
  "reachable s \<Longrightarrow> validEvent e \<Longrightarrow> step p e s = Some (Inr s') \<Longrightarrow> reachable s'"
  unfolding reachable_def by (rule rb_step) simp_all

lemma step_shorten: "step p (SetWorkDuration 15) initialState = Some (Inr shortenedState)"
proof -
  let ?h = "handle p (SetWorkDuration 15) initialState"
  have "step p (SetWorkDuration 15) initialState =
        Some (Inr (if deps ?h = deps initialState then ?h else settle p ?h))"
    using initialState_settled by (rule step_returns) (simp_all add: initialState_def)
  also have "\<dots> = Some (Inr shortenedState)"
    by (simp add: settle_def effectCleanup_def clearIntervalRef_def deps_def
        initialState_def shortenedState_def)
  finally show ?thesis .
qed

lemma shortenedState_reachable: "reachable shortenedState"
  by (rule reachable_step [OF reachable_init _ step_shorten [of workingPlatform]]) simp

lemma step_start: "step workingPlatform Toggle initialState = Some (Inr runningState)"
proof -
  have "\<not> isActive initialState" by (simp add: initialState_def)
  with initialState_settled
  have "step workingPlatform Toggle initialState =
        Some (Inr (armInterval (clearIntervalRef (toggleTimer workingPlatform initialState))))"
    by (rule toggle_starts)
  also have "\<dots> = Some (Inr runningState)"
    by (simp add: armInterval_def clearIntervalRef_def toggleTimer_def Let_def
        initialState_def workingPlatform_def runningState_def)
  finally show ?thesis .
qed

lemma runningState_reachable: "reachable runningState"
  by (rule reachable_step [OF reachable_init _ step_start]) simp

lemma runningState_settled: "settled runningState"
  using runningState_reachable by (simp add: reachable_def reachableBy_settled)

lemma within_step:
  assumes "settled s" and "timeLeft s \<le> totalDuration s" and "validEvent e"
    and "withinAfterEdit s e" and "step p e s = Some (Inr s')"
  shows "timeLeft s' \<le> totalDuration s'"
proof -
  let ?h = "handle p e s"
  have vc: "validConfig s" and tl: "0 < timeLeft s" and cp: "0 \<le> completedPomodoros s"
    using assms(1) by (simp_all add: settled_def)
  from step_deps [OF assms(1,3,5)]
  have d: "deps s' = (if timeLeft ?h = 0 then deps (afterPhase p ?h) else deps ?h)"
    by simp
  show ?thesis
  proof (cases "timeLeft ?h = 0")
    case True
    have hc: "0 \<le> completedPomodoros ?h" using cp by (rule handle_completed)
    have vh: "validConfig ?h" using vc assms(3) by (rule handle_validConfig)
    have "timeLeft (afterPhase p ?h) \<le> totalDuration (afterPhase p ?h)"
      using hc by (simp add: totalDuration_def)
    moreover have "deps s' = deps (afterPhase p ?h)" using d True by simp
    ultimately show ?thesis using totalDuration_deps timeLeft_deps by metis
  next
    case False
    have "timeLeft ?h \<le> totalDuration ?h"
      using assms(2,4) by (cases e) (auto simp: totalDuration_def split: if_splits)
    moreover have "deps s' = deps ?h" using d False by simp
    ultimately show ?thesis using totalDuration_deps timeLeft_deps by metis
  qed
qed

lemma reachableBy_within:
  "reachableBy withinAfterEdit s \<Longrightarrow> timeLeft s \<le> totalDuration s"
proof (induction rule: reachableBy.induct)
  case rb_init
  show ?case by (simp add: initialState_def totalDuration_def)
next
  case (rb_step s e p s')
  have "settled s" using rb_step.hyps(1) by (rule reachableBy_settled)
  then show ?case using rb_step.IH rb_step.hyps(2,3,4) by (rule within_step)
qed

lemma tickedState_settled: "k < 1500 \<Longrightarrow> settled (tickedState k)"
  by (simp add: tickedState_def runningState_def initialState_def settled_def validConfig_def
      tickSourceOk_def)

lemma tickedState_step:
  assumes "Suc k < 1500"
  shows "step p Tick (tickedState k) = Some (Inr (tickedState (Suc k)))"
proof -
  have "step p Tick (tickedState k) =
        Some (Inr (armInterval (clearIntervalRef (intervalCallback (tickedState k)))))"
    using assms
    by (intro tick_counting tickedState_settled)
       (simp_all add: tickedState_def runningState_def initialState_def)
  also have "\<dots> = Some (Inr (tickedState (Suc k)))"
    by (simp add: armInterval_def clearIntervalRef_def intervalCallback_def tickedState_def
        runningState_def initialState_def)
  finally show ?thesis .
qed

lemma tickedState_run:
  "j + k < 1500 \<Longrightarrow>
   run p (replicate k Tick) (tickedState j) = Some (Inr (tickedState (j + k)))"
proof (induction k arbitrary: j)
  case 0
  show ?case by simp
next
  case (Suc k)
  have "step p Tick (tickedState j) = Some (Inr (tickedState (Suc j)))"
    using Suc.prems by (intro tickedState_step) simp
  moreover have "run p (replicate k Tick) (tickedState (Suc j))
      = Some (Inr (tickedState (Suc j + k)))"
    using Suc.prems by (intro Suc.IH) simp
  ultimately show ?case by simp
qed

lemma tickedState_0: "tickedState 0 = runningState"
  by (simp add: tickedState_def runningState_def initialState_def)

lemma run_reachable:
  "reachable s \<Longrightarrow> list_all validEvent es \<Longrightarrow> run p es s = Some (Inr s') \<Longrightarrow>
   reachable s'"
proof (induction es arbitrary: s)
  case Nil
  then show ?case by simp
next
  case (Cons e es)
  from Cons.prems(3) obtain s1 where s1: "step p e s = Some (Inr s1)"
      "run p es s1 = Some (Inr s')"
    by (auto split: option.splits sum.splits)
  have "reachable s1" using Cons.prems(1) _ s1(1) by (rule reachable_step) (use Cons.prems(2) in simp)
  then show ?case using Cons.prems(2) s1(2) by (intro Cons.IH) simp_all
qed

lemma tickedState_reachable: "k < 1500 \<Longrightarrow> reachable (tickedState k)"
proof -
  assume "k < 1500"
  then have "run workingPlatform (replicate k Tick) (tickedState 0)
      = Some (Inr (tickedState k))"
    using tickedState_run [of 0 k workingPlatform] by simp
  moreover have "list_all validEvent (replicate k Tick)"
    by (simp add: list_all_iff)
  ultimately show ?thesis
    using runningState_reachable run_reachable by (simp add: tickedState_0)
qed

lemma workingPlatform_returns: "\<not> notificationThrows workingPlatform"
  by (simp add: notificationThrows_def workingPlatform_def)

lemma throwingPlatform_throws: "notificationThrows throwingPlatform"
  by (simp add: notificationThrows_def throwingPlatform_def)

lemma tickedState_last: "isActive (tickedState 1499)" "timeLeft (tickedState 1499) = 1"
  by (simp_all add: tickedState_def runningState_def initialState_def)

lemma step_firstBreak: "step workingPlatform Tick (tickedState 1499) = Some (Inr firstBreak)"
proof -
  have "step workingPlatform Tick (tickedState 1499) =
        Some (Inr (clearIntervalRef (afterPhase workingPlatform
                (clearIntervalRef (intervalCallback (tickedState 1499))))))"
    by (intro tick_finishing tickedState_settled tickedState_last workingPlatform_returns) simp
  also have "\<dots> = Some (Inr firstBreak)"
    by (simp add: clearIntervalRef_def afterPhase_def afterAlarm_def playBeep_def
        logOutput_def intervalCallback_def tickedState_def runningState_def
        initialState_def workingPlatform_def firstBreak_def signed_modulo_int_def)
  finally show ?thesis .
qed

lemma runningState_reachableBy: "reachableBy withinAfterEdit runningState"
  by (rule rb_step [OF rb_init _ _ step_start]) simp_all

lemma pausedBreak_settled: "settled pausedBreak"
  by (simp add: pausedBreak_def firstBreak_def settled_def validConfig_def tickSourceOk_def)

lemma validConfig_totalDuration: "validConfig s \<Longrightarrow> 0 < totalDuration s"
  by (simp add: validConfig_def totalDuration_def)

lemma progress_value:
  "0 < totalDuration s \<Longrightarrow>
   progress s = Some (of_int (totalDuration s - timeLeft s) / of_int (totalDuration s) * 100)"
  by (simp add: progress_def)

lemma progress_range:
  assumes "0 < totalDuration s" and "0 \<le> timeLeft s" and "timeLeft s \<le> totalDuration s"
  shows "\<exists>r. progress s = Some r \<and> 0 \<le> r \<and> r \<le> 100"
proof -
  let ?r = "(of_int (totalDuration s - timeLeft s) / of_int (totalDuration s) * 100) :: real"
  have "0 \<le> ?r" using assms by simp
  moreover have "?r \<le> 100" using assms by (simp add: field_simps)
  ultimately show ?thesis using progress_value [OF assms(1)] by simp
qed

lemma progress_start: "0 < totalDuration s \<Longrightarrow> timeLeft s = totalDuration s \<Longrightarrow> progress s = Some 0"
  by (simp add: progress_def)

lemma progress_increases:
  assumes "0 < totalDuration s"
  shows "\<exists>r r'. progress s = Some r \<and> progress (s\<lparr>timeLeft := timeLeft s - 1\<rparr>) = Some r' \<and>
           r < r'"
proof -
  have t: "totalDuration (s\<lparr>timeLeft := timeLeft s - 1\<rparr>) = totalDuration s"
    by (simp add: totalDuration_def)
  have "(of_int (totalDuration s - timeLeft s) :: real) / of_int (totalDuration s) * 100
        < of_int (totalDuration s - (timeLeft s - 1)) / of_int (totalDuration s) * 100"
    using assms by (simp add: field_simps)
  then show ?thesis
    using assms by (simp only: progress_def t) simp
qed

lemma handle_break:
  "isBreak (handle p e s) \<Longrightarrow>
   isBreak s \<and> completedPomodoros (handle p e s) = completedPomodoros s"
  by (cases e) simp_all

lemma reachableBy_break_count:
  "reachableBy ok s \<Longrightarrow> isBreak s \<Longrightarrow> 0 < completedPomodoros s"
proof (induction rule: reachableBy.induct)
  case rb_init
  then show ?case by (simp add: initialState_def)
next
  case (rb_step s e p s')
  let ?h = "handle p e s"
  have se: "settled s" using rb_step.hyps(1) by (rule reachableBy_settled)
  then have hc: "0 \<le> completedPomodoros ?h"
    by (intro handle_completed) (simp add: settled_def)
  from step_deps [OF se rb_step.hyps(2) rb_step.hyps(4)]
  have d: "deps s' = (if timeLeft ?h = 0 then deps (afterPhase p ?h) else deps ?h)"
    by simp
  show ?case
  proof (cases "timeLeft ?h = 0")
    case True
    then have "deps s' = deps (afterPhase p ?h)" using d by simp
    then have "isBreak s' = (\<not> isBreak ?h)"
        "completedPomodoros s' =
           (if isBreak ?h then completedPomodoros ?h else completedPomodoros ?h + 1)"
      by (simp_all add: deps_fields)
    then show ?thesis using rb_step.prems hc by simp
  next
    case False
    then have "deps s' = deps ?h" using d by simp
    then have f: "isBreak s' = isBreak ?h" "completedPomodoros s' = completedPomodoros ?h"
      by (simp_all add: deps_fields)
    then have "isBreak ?h" using rb_step.prems by simp
    from handle_break [OF this] rb_step.IH f show ?thesis by simp
  qed
qed

lemma firstBreak_reachable: "reachable firstBreak"
proof -
  have "reachable (tickedState 1499)" by (rule tickedState_reachable) simp
  then show ?thesis by (rule reachable_step [OF _ _ step_firstBreak]) simp
qed

lemma firstBreak_settled: "settled firstBreak"
  using firstBreak_reachable by (simp add: reachable_def reachableBy_settled)

lemma step_idle_edit:
  assumes "settled s" and "validEvent e" and "\<not> isActive s" and "liveIntervals s = []"
    and "e \<noteq> Tick" and "e \<noteq> Toggle"
  shows "step p e s = Some (Inr (handle p e s))"
proof -
  have vc: "validConfig s" and tl: "0 < timeLeft s" using assms(1) by (simp_all add: settled_def)
  let ?h = "handle p e s"
  have nz: "timeLeft ?h \<noteq> 0" using vc tl assms(5) by (rule handle_nonTick_timeLeft)
  have idle: "\<not> isActive ?h" "liveIntervals ?h = []"
    using assms(3,4,5,6)
    by (cases e; simp add: resetTimer_live clearIntervalRef_live split: option.split)+
  have "effectCleanup ?h = ?h"
    using idle(2) by (simp add: effectCleanup_def clearIntervalRef_def split: option.split)
  then have "settle p ?h = ?h" using nz idle(1) by (simp add: settle_def)
  moreover have "step p e s = Some (Inr (if deps ?h = deps s then ?h else settle p ?h))"
    using assms(1,2) by (rule step_returns) (use nz in simp)
  ultimately show ?thesis by simp
qed

lemma run_edited: "run workingPlatform [ToggleSettings, SetShortBreakDuration 3] firstBreak
    = Some (Inr editedBreak)"
proof -
  let ?o = "firstBreak\<lparr>showSettings := True\<rparr>"
  have a: "step workingPlatform ToggleSettings firstBreak = Some (Inr ?o)"
    using step_idle_edit [OF firstBreak_settled, of ToggleSettings workingPlatform]
    by (simp add: firstBreak_def)
  have "reachable ?o" using firstBreak_reachable _ a by (rule reachable_step) simp
  then have "settled ?o" by (simp add: reachable_def reachableBy_settled)
  from step_idle_edit [OF this, of "SetShortBreakDuration 3" workingPlatform]
  have "step workingPlatform (SetShortBreakDuration 3) ?o = Some (Inr editedBreak)"
    by (simp add: firstBreak_def editedBreak_def)
  with a show ?thesis by simp
qed

lemma editedBreak_reachable: "reachable editedBreak"
  using firstBreak_reachable _ run_edited by (rule run_reachable) simp

lemma handle_break_sliders:
  "\<not> isBreakDurationEdit e \<Longrightarrow>
   shortBreakDuration (handle p e s) = shortBreakDuration s \<and>
   longBreakDuration (handle p e s) = longBreakDuration s"
  by (cases e) simp_all

lemma step_break_sliders:
  assumes "settled s" and "validEvent e" and "\<not> isBreakDurationEdit e"
    and "step p e s = Some (Inr s')"
  shows "shortBreakDuration s' = shortBreakDuration s \<and>
         longBreakDuration s' = longBreakDuration s"
proof -
  from step_deps [OF assms(1,2,4)]
  have "shortBreakDuration s' = shortBreakDuration (handle p e s) \<and>
        longBreakDuration s' = longBreakDuration (handle p e s)"
    by (simp add: deps_def split: if_splits)
  then show ?thesis using handle_break_sliders [OF assms(3), of p s] by simp
qed

lemma run_break_sliders:
  "settled s \<Longrightarrow> list_all (\<lambda>e. validEvent e \<and> \<not> isBreakDurationEdit e) es \<Longrightarrow>
   run p es s = Some (Inr s') \<Longrightarrow>
   shortBreakDuration s' = shortBreakDuration s \<and> longBreakDuration s' = longBreakDuration s"
proof (induction es arbitrary: s)
  case Nil
  then show ?case by simp
next
  case (Cons e es)
  from Cons.prems(3) obtain s1 where s1: "step p e s = Some (Inr s1)"
      "run p es s1 = Some (Inr s')"
    by (auto split: option.splits sum.splits)
  have ve: "validEvent e" "\<not> isBreakDurationEdit e" using Cons.prems(2) by simp_all
  have "settled s1" using Cons.prems(1) ve(1) s1(1) by (rule step_settled)
  moreover have "list_all (\<lambda>e. validEvent e \<and> \<not> isBreakDurationEdit e) es"
    using Cons.prems(2) by simp
  ultimately have "shortBreakDuration s' = shortBreakDuration s1 \<and>
      longBreakDuration s' = longBreakDuration s1"
    using s1(2) by (rule Cons.IH)
  then show ?case
    using step_break_sliders [OF Cons.prems(1) ve s1(1)] by simp
qed

lemma step_config_edit:
  assumes "timeLeft s \<noteq> 0" and "isConfigEdit e"
  shows "\<exists>s'. step p e s = Some (Inr s') \<and> deps s' = deps (handle p e s) \<and>
           alarmVolume s' = alarmVolume (handle p e s)"
proof -
  let ?h = "handle p e s"
  have "timerState ?h = timerState s" using assms(2) by (rule handle_config_edit)
  then have nz: "timeLeft ?h \<noteq> 0" using assms(1) by (simp add: timerState_def)
  show ?thesis
  proof (cases "deps ?h = deps s")
    case True
    then show ?thesis by (simp add: step_def runEffects_same)
  next
    case False
    then have "step p e s = Some (Inr (settle p ?h))"
      using nz by (simp add: step_def runEffects_counting)
    moreover have "deps (settle p ?h) = deps ?h"
      using nz by (simp add: deps_settle)
    moreover have "alarmVolume (settle p ?h) = alarmVolume ?h"
      using nz by (simp add: settle_def effectCleanup_def)
    ultimately show ?thesis by simp
  qed
qed

lemma step_start_throwing: "step throwingPlatform Toggle initialState = Some (Inr runningState)"
proof -
  have "\<not> isActive initialState" by (simp add: initialState_def)
  with initialState_settled
  have "step throwingPlatform Toggle initialState =
        Some (Inr (armInterval (clearIntervalRef (toggleTimer throwingPlatform initialState))))"
    by (rule toggle_starts)
  also have "\<dots> = Some (Inr runningState)"
    by (simp add: armInterval_def clearIntervalRef_def toggleTimer_def Let_def
        initialState_def throwingPlatform_def runningState_def)
  finally show ?thesis .
qed

lemma focusSession_split: "focusSession = [Toggle] @ replicate 1499 Tick @ [Tick]"
proof -
  have "replicate (Suc 1499) Tick = replicate 1499 Tick @ [Tick]"
    by (simp only: replicate_append_same replicate_Suc)
  then show ?thesis by (simp add: focusSession_def)
qed

lemma focusSession_throwing:
  "run throwingPlatform focusSession initialState = Some (Inl NotificationTypeError)"
proof -
  have a: "run throwingPlatform (replicate 1499 Tick) runningState
      = Some (Inr (tickedState 1499))"
    using tickedState_run [of 0 1499 throwingPlatform] by (simp add: tickedState_0)
  have b: "step throwingPlatform Tick (tickedState 1499) = Some (Inl NotificationTypeError)"
    by (intro tick_throwing tickedState_settled tickedState_last throwingPlatform_throws) simp
  show ?thesis
    unfolding focusSession_split using step_start_throwing a b by (simp add: run_append)
qed

lemma focusSession_working:
  "run workingPlatform focusSession initialState = Some (Inr firstBreak)"
proof -
  have a: "run workingPlatform (replicate 1499 Tick) runningState
      = Some (Inr (tickedState 1499))"
    using tickedState_run [of 0 1499 workingPlatform] by (simp add: tickedState_0)
  show ?thesis
    unfolding focusSession_split using step_start a step_firstBreak by (simp add: run_append)
qed

section \<open>Phase completion\<close>





section \<open>Counting down\<close>



section \<open>The bound on the remaining time\<close>

text \<open>
  Claim C4 as stated (in every reachable state \<open>timeLeft\<close> lies between 0 and the duration
  of the current phase under the current configuration) fails: dragging the work slider
  from 25 to 15 minutes in the initial state leaves \<open>timeLeft = 1500\<close> while the phase
  duration becomes 900.
\<close>

theorem timeLeft_bound_counterexample:
  "reachable shortenedState \<and>
   \<not> (0 \<le> timeLeft shortenedState \<and> timeLeft shortenedState \<le> totalDuration shortenedState)"
  using shortenedState_reachable
  by (simp add: shortenedState_def initialState_def totalDuration_def)

text \<open>
  Claim C4, amended. In every reachable state \<open>timeLeft\<close> is at least 0. In every state
  reached by start/pause, ticks, resets, session resets, volume edits and those duration
  edits that do not put the duration of the current phase below the current \<open>timeLeft\<close>,
  \<open>timeLeft\<close> is at most \<open>totalDuration\<close>.
\<close>

theorem timeLeft_bound_amended:
  "(reachable s \<longrightarrow> 0 \<le> timeLeft s) \<and>
   (reachableBy withinAfterEdit s \<longrightarrow> 0 \<le> timeLeft s \<and> timeLeft s \<le> totalDuration s)"
  using reachableBy_settled [of "\<lambda>s e. True" s] reachableBy_settled [of withinAfterEdit s]
    reachableBy_within [of s]
  by (auto simp: reachable_def settled_def)

theorem timeLeft_bound_amended_witness:
  "reachable runningState \<and> 0 \<le> timeLeft runningState \<and>
   reachableBy withinAfterEdit runningState \<and>
   timeLeft runningState \<le> totalDuration runningState"
  using runningState_reachable runningState_reachableBy
    timeLeft_bound_amended [of runningState]
  by simp

section \<open>Progress\<close>

text \<open>
  Claim C5 as stated (in every reachable state the progress ratio is
  \<open>(totalDuration - timeLeft) / totalDuration\<close> clamped to \<open>[0, 1]\<close>) fails: the code does
  not clamp. After the work slider has gone from 25 to 15 minutes in the initial state the
  percentage is negative, while the clamped ratio is 0.
\<close>

theorem progress_clamp_counterexample:
  "reachable shortenedState \<and>
   progress shortenedState \<noteq>
     Some (max 0 (min 1 (of_int (totalDuration shortenedState - timeLeft shortenedState)
                         / of_int (totalDuration shortenedState))) * 100)"
  using shortenedState_reachable
  by (simp add: progress_def totalDuration_def shortenedState_def initialState_def)

text \<open>
  Claim C5, amended. In every reachable state \<open>progress\<close> is the unclamped percentage
  \<open>100 * (totalDuration - timeLeft) / totalDuration\<close>. It lies between 0 and 100 in every
  state reached without a duration edit that puts the duration of the current phase below
  \<open>timeLeft\<close>. It is 0 when a phase starts: in the initial state, after a reset, and in
  the state a phase completion returns. Each second counted down makes it strictly larger,
  and it is 100 when \<open>timeLeft\<close> is 0.
\<close>

theorem progress_amended:
  "(reachable s \<longrightarrow>
      progress s = Some (of_int (totalDuration s - timeLeft s) / of_int (totalDuration s) * 100)) \<and>
   (reachableBy withinAfterEdit s \<longrightarrow> (\<exists>r. progress s = Some r \<and> 0 \<le> r \<and> r \<le> 100)) \<and>
   progress initialState = Some 0 \<and>
   (validConfig s \<longrightarrow> progress (resetTimer s) = Some 0) \<and>
   (validConfig s \<and> 0 \<le> completedPomodoros s \<and> timeLeft s = 0 \<and> \<not> notificationThrows p \<longrightarrow>
      (\<exists>s'. timerEffect p s = Inr s' \<and> progress s' = Some 0)) \<and>
   (0 < totalDuration s \<longrightarrow>
      (\<exists>r r'. progress s = Some r \<and> progress (s\<lparr>timeLeft := timeLeft s - 1\<rparr>) = Some r' \<and>
         r < r')) \<and>
   (0 < totalDuration s \<and> timeLeft s = 0 \<longrightarrow> progress s = Some 100)"
proof -
  have a: "progress s = Some (of_int (totalDuration s - timeLeft s) / of_int (totalDuration s) * 100)"
    if "reachable s"
  proof -
    have "validConfig s"
      using that reachableBy_settled [of "\<lambda>s e. True" s] by (simp add: reachable_def settled_def)
    then show ?thesis by (intro progress_value validConfig_totalDuration)
  qed
  have b: "\<exists>r. progress s = Some r \<and> 0 \<le> r \<and> r \<le> 100" if r: "reachableBy withinAfterEdit s"
  proof -
    have se: "settled s" using r by (rule reachableBy_settled)
    then have "0 < totalDuration s" "0 \<le> timeLeft s"
      by (simp_all add: settled_def validConfig_totalDuration)
    then show ?thesis using reachableBy_within [OF r] by (intro progress_range)
  qed
  have c: "progress initialState = Some 0"
    by (simp add: progress_def totalDuration_def initialState_def)
  have d: "progress (resetTimer s) = Some 0" if "validConfig s"
    using that by (intro progress_start) (simp_all add: totalDuration_def validConfig_def)
  have e: "\<exists>s'. timerEffect p s = Inr s' \<and> progress s' = Some 0"
    if "validConfig s" and "0 \<le> completedPomodoros s" and "timeLeft s = 0"
      and "\<not> notificationThrows p"
  proof -
    have eq: "timerEffect p s = Inr (afterPhase p s)"
      using that(3,4) by (simp add: timerEffect_finished)
    have "validConfig (afterPhase p s)" using that(1) by (simp add: validConfig_def)
    then have "0 < totalDuration (afterPhase p s)" by (rule validConfig_totalDuration)
    moreover have "timeLeft (afterPhase p s) = totalDuration (afterPhase p s)"
      using that(2) by (simp add: totalDuration_def)
    ultimately have "progress (afterPhase p s) = Some 0" by (rule progress_start)
    with eq show ?thesis by simp
  qed
  have f: "progress s = Some 100" if "0 < totalDuration s" and "timeLeft s = 0"
    using that by (simp add: progress_def)
  show ?thesis
    using a b c d e f progress_increases [of s] by blast
qed

theorem progress_amended_witness:
  "reachable runningState \<and> reachableBy withinAfterEdit runningState \<and>
   progress runningState = Some 0 \<and>
   validConfig pausedBreak \<and> progress (resetTimer pausedBreak) = Some 0 \<and>
   0 \<le> completedPomodoros (pausedBreak\<lparr>timeLeft := 0\<rparr>) \<and>
   timeLeft (pausedBreak\<lparr>timeLeft := 0\<rparr>) = 0 \<and>
   \<not> notificationThrows workingPlatform \<and>
   map_sum id progress (timerEffect workingPlatform (pausedBreak\<lparr>timeLeft := 0\<rparr>))
     = Inr (Some 0) \<and>
   0 < totalDuration (pausedBreak\<lparr>timeLeft := 0\<rparr>) \<and>
   progress (pausedBreak\<lparr>timeLeft := 0\<rparr>) = Some 100 \<and>
   progress (initialState\<lparr>timeLeft := 750\<rparr>) = Some 50 \<and>
   progress (initialState\<lparr>timeLeft := 750 - 1\<rparr>) = Some (751 / 15)"
proof -
  have v: "validConfig pausedBreak" using pausedBreak_settled by (simp add: settled_def)
  have v0: "validConfig (pausedBreak\<lparr>timeLeft := 0\<rparr>)" using v by (simp add: validConfig_def)
  have t: "0 < totalDuration (pausedBreak\<lparr>timeLeft := 0\<rparr>)"
    using v0 by (rule validConfig_totalDuration)
  have c: "0 \<le> completedPomodoros (pausedBreak\<lparr>timeLeft := 0\<rparr>)"
    by (simp add: pausedBreak_def)
  have "progress runningState = Some 0"
    using progress_amended [of runningState workingPlatform] runningState_reachable
    by (simp add: totalDuration_def runningState_def initialState_def)
  moreover have "progress (resetTimer pausedBreak) = Some 0"
    using progress_amended [of pausedBreak workingPlatform] v by simp
  moreover have
    "map_sum id progress (timerEffect workingPlatform (pausedBreak\<lparr>timeLeft := 0\<rparr>))
       = Inr (Some 0)"
    "progress (pausedBreak\<lparr>timeLeft := 0\<rparr>) = Some 100"
    using progress_amended [of "pausedBreak\<lparr>timeLeft := 0\<rparr>" workingPlatform] v0 t c
      workingPlatform_returns
    by auto
  moreover have "progress (initialState\<lparr>timeLeft := 750\<rparr>) = Some 50"
    "progress (initialState\<lparr>timeLeft := 750 - 1\<rparr>) = Some (751 / 15)"
    by (simp_all add: progress_def totalDuration_def initialState_def)
  ultimately show ?thesis
    using runningState_reachable runningState_reachableBy v t c workingPlatform_returns by simp
qed

section \<open>Start and pause\<close>

text \<open>
  Claim C6 as stated (start on a running timer is a no-op that leaves it running) fails for
  the only start operation the component has, \<^verbatim>\<open>toggleTimer\<close>: pressed while the timer
  runs, it stops it.
\<close>

theorem start_idempotent_counterexample:
  "reachable runningState \<and> isActive runningState \<and>
   map_option (map_sum id isActive) (step workingPlatform Toggle runningState)
     = Some (Inr False)"
  using runningState_reachable toggle_pauses [OF runningState_settled, of workingPlatform]
  by (simp add: runningState_def initialState_def)

text \<open>
  Claim C6, amended. Start and pause are one toggle. In every reachable state at most one
  interval timer is live, and the toggle returns a state in which \<open>isActive\<close> is negated,
  \<open>timeLeft\<close>, \<open>isBreak\<close> and \<open>completedPomodoros\<close> are unchanged, and exactly one interval
  timer is live if the timer now runs and none if it is paused.
\<close>

theorem toggle_flips:
  assumes "reachable s"
  shows "length (liveIntervals s) \<le> 1 \<and>
         (\<exists>s'. step p Toggle s = Some (Inr s') \<and> isActive s' = (\<not> isActive s) \<and>
            timeLeft s' = timeLeft s \<and> isBreak s' = isBreak s \<and>
            completedPomodoros s' = completedPomodoros s \<and>
            length (liveIntervals s') = (if isActive s' then 1 else 0))"
proof -
  have se: "settled s" using assms by (simp add: reachable_def reachableBy_settled)
  have one: "length (liveIntervals s) \<le> 1"
    using se by (auto simp: settled_def tickSourceOk_def split: if_splits option.splits)
  have nz: "timeLeft (handle p Toggle s) \<noteq> 0" using se by (simp add: settled_def)
  obtain s' where s': "step p Toggle s = Some (Inr s')"
    using step_returns [OF se, of Toggle p] nz by simp
  have set': "settled s'" using se _ s' by (rule step_settled) simp
  have d: "deps s' = deps (handle p Toggle s)"
    using step_deps [OF se _ s'] nz by simp
  have f: "isActive s' = (\<not> isActive s)" "timeLeft s' = timeLeft s" "isBreak s' = isBreak s"
      "completedPomodoros s' = completedPomodoros s"
    using d by (simp_all add: deps_fields)
  have "length (liveIntervals s') = (if isActive s' then 1 else 0)"
    using set' by (auto simp: settled_def tickSourceOk_def split: if_splits option.splits)
  with one s' f show ?thesis by blast
qed

theorem toggle_flips_witness:
  "reachable runningState \<and> length (liveIntervals runningState) \<le> 1 \<and>
   map_option (map_sum id timerState) (step failingPlatform Toggle runningState)
     = Some (Inr (1500, False, False, 0)) \<and>
   map_option (map_sum id liveIntervals) (step failingPlatform Toggle runningState)
     = Some (Inr [])"
  using runningState_reachable toggle_flips [OF runningState_reachable, of failingPlatform]
  by (auto simp: timerState_def runningState_def initialState_def)

section \<open>Reset\<close>

text \<open>
  Claim C7. For every state, \<^verbatim>\<open>resetTimer\<close> yields \<open>timeLeft = workDuration * 60\<close>,
  \<open>isActive = False\<close>, \<open>isBreak = False\<close> and the same \<open>completedPomodoros\<close>;
  \<^verbatim>\<open>resetSession\<close> yields the same state with \<open>completedPomodoros\<close> set to 0. From a settled
  state the whole event, handler and effects, returns a state with these four values.
\<close>

theorem reset_effect:
  "timerState (resetTimer s) = (workDuration s * 60, False, False, completedPomodoros s) \<and>
   resetSession s = (resetTimer s)\<lparr>completedPomodoros := 0\<rparr> \<and>
   timerState (resetSession s) = (workDuration s * 60, False, False, 0) \<and>
   (settled s \<longrightarrow>
      (\<exists>s'. step p Reset s = Some (Inr s') \<and>
            timerState s' = (workDuration s * 60, False, False, completedPomodoros s)) \<and>
      (\<exists>s'. step p ResetSession s = Some (Inr s') \<and>
            timerState s' = (workDuration s * 60, False, False, 0)))"
proof -
  have ev: "\<exists>s'. step p e s = Some (Inr s') \<and> timerState s' = timerState (handle p e s)"
    if st: "settled s" and e: "e = Reset \<or> e = ResetSession" for e
  proof -
    have vc: "validConfig s" and tl: "0 < timeLeft s" using st by (simp_all add: settled_def)
    have ve: "validEvent e" using e by auto
    have nz: "timeLeft (handle p e s) \<noteq> 0"
      using vc tl by (rule handle_nonTick_timeLeft) (use e in auto)
    obtain s' where s': "step p e s = Some (Inr s')"
      using step_returns [OF st ve, of p] nz by simp
    have "deps s' = deps (handle p e s)" using step_deps [OF st ve s'] nz by simp
    then show ?thesis using s' timerState_deps by blast
  qed
  have "\<exists>s'. step p Reset s = Some (Inr s') \<and>
            timerState s' = (workDuration s * 60, False, False, completedPomodoros s)"
    if "settled s"
    using ev [OF that, of Reset] by (simp add: timerState_def)
  moreover have "\<exists>s'. step p ResetSession s = Some (Inr s') \<and>
            timerState s' = (workDuration s * 60, False, False, 0)"
    if "settled s"
    using ev [OF that, of ResetSession] by (simp add: timerState_def)
  ultimately show ?thesis
    by (simp add: timerState_def resetSession_def)
qed

theorem reset_effect_witness:
  "settled pausedBreak \<and>
   timerState pausedBreak = (200, False, True, 3) \<and>
   map_option (map_sum id timerState) (step workingPlatform Reset pausedBreak)
     = Some (Inr (1500, False, False, 3)) \<and>
   map_option (map_sum id timerState) (step workingPlatform ResetSession pausedBreak)
     = Some (Inr (1500, False, False, 0))"
  using pausedBreak_settled reset_effect [of pausedBreak workingPlatform]
  by (auto simp: timerState_def pausedBreak_def firstBreak_def)

section \<open>The two long-break computations\<close>




section \<open>Alarm failures\<close>

text \<open>
  Claim C9 (every failure of alarm delivery is swallowed and leaves the timer state as it
  would be after a delivered alarm) holds for the audio failures, which \<^verbatim>\<open>playBeep\<close>
  catches and logs, and for a missing or denied notification permission, which the guard
  of \<^verbatim>\<open>playAlarm\<close> skips. It does not hold when \<^verbatim>\<open>new Notification(...)\<close> itself throws:
  the exception leaves \<^verbatim>\<open>playAlarm\<close> and the effect before any setter has run. In a
  browser that grants the permission and rejects the page constructor, the default focus
  session (start, 1500 ticks) ends in the exception, where a working browser ends in the
  first break; the same effect run in a browser without audio and with notifications
  denied logs the audio failure and completes the phase.
\<close>

theorem notification_throw_escapes:
  "run workingPlatform focusSession initialState = Some (Inr firstBreak) \<and>
   run throwingPlatform focusSession initialState = Some (Inl NotificationTypeError) \<and>
   reachable (tickedState 1499) \<and>
   step throwingPlatform Tick (tickedState 1499) = Some (Inl NotificationTypeError) \<and>
   timerEffect throwingPlatform (initialState\<lparr>timeLeft := 0, isActive := True\<rparr>)
     = Inl NotificationTypeError \<and>
   map_sum id (\<lambda>s. (timerState s, outputs s))
     (timerEffect failingPlatform (initialState\<lparr>timeLeft := 0, isActive := True\<rparr>))
     = Inr ((300, False, True, 1), [ConsoleLog ''Audio not supported or failed:''])"
proof -
  have "reachable (tickedState 1499)" by (rule tickedState_reachable) simp
  moreover have "step throwingPlatform Tick (tickedState 1499)
      = Some (Inl NotificationTypeError)"
    by (intro tick_throwing tickedState_settled tickedState_last throwingPlatform_throws) simp
  moreover have "timerEffect throwingPlatform (initialState\<lparr>timeLeft := 0, isActive := True\<rparr>)
      = Inl NotificationTypeError"
    using throwingPlatform_throws by (simp add: timerEffect_finished)
  moreover have "map_sum id (\<lambda>s. (timerState s, outputs s))
     (timerEffect failingPlatform (initialState\<lparr>timeLeft := 0, isActive := True\<rparr>))
     = Inr ((300, False, True, 1), [ConsoleLog ''Audio not supported or failed:''])"
    by (simp add: timerEffect_def timerFinished_def playAlarm_def playBeep_def logOutput_def
        Let_def timerState_def initialState_def failingPlatform_def signed_modulo_int_def)
  ultimately show ?thesis
    using focusSession_working focusSession_throwing by simp
qed

section \<open>Configuration edits\<close>

text \<open>
  Claim C10. In a state where \<open>timeLeft\<close> is not 0 (a countdown in progress or paused),
  moving a slider returns a state in which the slider's variable holds the value it was
  moved to, the other three configuration variables are unchanged, and \<open>timeLeft\<close>,
  \<open>isActive\<close>, \<open>isBreak\<close>, \<open>completedPomodoros\<close> are unchanged. The new value takes effect
  at the next assignment of \<open>timeLeft\<close>: a new work duration \<open>v\<close> is what a reset assigns
  (\<open>v * 60\<close>) and what the completion of a break assigns; a new short-break duration is
  what the completion of a focus phase assigns when the new count is not divisible by 4,
  a new long-break duration when it is.
\<close>

theorem config_edit_frame:
  assumes "timeLeft s \<noteq> 0"
  shows
    "(\<exists>s'. step p (SetWorkDuration v) s = Some (Inr s') \<and> timerState s' = timerState s \<and>
        workDuration s' = v \<and> shortBreakDuration s' = shortBreakDuration s \<and>
        longBreakDuration s' = longBreakDuration s \<and> alarmVolume s' = alarmVolume s \<and>
        timeLeft (resetTimer s') = v * 60 \<and>
        (isBreak s \<and> \<not> notificationThrows q \<longrightarrow>
           (\<exists>f. timerEffect q (s'\<lparr>timeLeft := 0\<rparr>) = Inr f \<and> timeLeft f = v * 60))) \<and>
     (\<exists>s'. step p (SetShortBreakDuration v) s = Some (Inr s') \<and> timerState s' = timerState s \<and>
        workDuration s' = workDuration s \<and> shortBreakDuration s' = v \<and>
        longBreakDuration s' = longBreakDuration s \<and> alarmVolume s' = alarmVolume s \<and>
        (\<not> isBreak s \<and> \<not> 4 dvd completedPomodoros s + 1 \<and> \<not> notificationThrows q \<longrightarrow>
           (\<exists>f. timerEffect q (s'\<lparr>timeLeft := 0\<rparr>) = Inr f \<and> timeLeft f = v * 60))) \<and>
     (\<exists>s'. step p (SetLongBreakDuration v) s = Some (Inr s') \<and> timerState s' = timerState s \<and>
        workDuration s' = workDuration s \<and> shortBreakDuration s' = shortBreakDuration s \<and>
        longBreakDuration s' = v \<and> alarmVolume s' = alarmVolume s \<and>
        (\<not> isBreak s \<and> 4 dvd completedPomodoros s + 1 \<and> \<not> notificationThrows q \<longrightarrow>
           (\<exists>f. timerEffect q (s'\<lparr>timeLeft := 0\<rparr>) = Inr f \<and> timeLeft f = v * 60))) \<and>
     (\<exists>s'. step p (SetAlarmVolume x) s = Some (Inr s') \<and> timerState s' = timerState s \<and>
        workDuration s' = workDuration s \<and> shortBreakDuration s' = shortBreakDuration s \<and>
        longBreakDuration s' = longBreakDuration s \<and> alarmVolume s' = x)"
proof (intro conjI)
  from step_config_edit [OF assms, of "SetWorkDuration v" p]
  obtain s' where s': "step p (SetWorkDuration v) s = Some (Inr s')"
      "deps s' = deps (s\<lparr>workDuration := v\<rparr>)" "alarmVolume s' = alarmVolume s"
    by auto
  have "timerEffect q (s'\<lparr>timeLeft := 0\<rparr>) = Inr (afterPhase q (s'\<lparr>timeLeft := 0\<rparr>))"
    if "\<not> notificationThrows q"
    using that by (simp add: timerEffect_finished)
  then show "\<exists>s'. step p (SetWorkDuration v) s = Some (Inr s') \<and> timerState s' = timerState s \<and>
        workDuration s' = v \<and> shortBreakDuration s' = shortBreakDuration s \<and>
        longBreakDuration s' = longBreakDuration s \<and> alarmVolume s' = alarmVolume s \<and>
        timeLeft (resetTimer s') = v * 60 \<and>
        (isBreak s \<and> \<not> notificationThrows q \<longrightarrow>
           (\<exists>f. timerEffect q (s'\<lparr>timeLeft := 0\<rparr>) = Inr f \<and> timeLeft f = v * 60))"
    using s' by (auto simp: deps_fields timerState_def)
next
  from step_config_edit [OF assms, of "SetShortBreakDuration v" p]
  obtain s' where s': "step p (SetShortBreakDuration v) s = Some (Inr s')"
      "deps s' = deps (s\<lparr>shortBreakDuration := v\<rparr>)" "alarmVolume s' = alarmVolume s"
    by auto
  have "timerEffect q (s'\<lparr>timeLeft := 0\<rparr>) = Inr (afterPhase q (s'\<lparr>timeLeft := 0\<rparr>))"
    if "\<not> notificationThrows q"
    using that by (simp add: timerEffect_finished)
  then show "\<exists>s'. step p (SetShortBreakDuration v) s = Some (Inr s') \<and>
        timerState s' = timerState s \<and>
        workDuration s' = workDuration s \<and> shortBreakDuration s' = v \<and>
        longBreakDuration s' = longBreakDuration s \<and> alarmVolume s' = alarmVolume s \<and>
        (\<not> isBreak s \<and> \<not> 4 dvd completedPomodoros s + 1 \<and> \<not> notificationThrows q \<longrightarrow>
           (\<exists>f. timerEffect q (s'\<lparr>timeLeft := 0\<rparr>) = Inr f \<and> timeLeft f = v * 60))"
    using s' by (auto simp: deps_fields timerState_def smod4_dvd)
next
  from step_config_edit [OF assms, of "SetLongBreakDuration v" p]
  obtain s' where s': "step p (SetLongBreakDuration v) s = Some (Inr s')"
      "deps s' = deps (s\<lparr>longBreakDuration := v\<rparr>)" "alarmVolume s' = alarmVolume s"
    by auto
  have "timerEffect q (s'\<lparr>timeLeft := 0\<rparr>) = Inr (afterPhase q (s'\<lparr>timeLeft := 0\<rparr>))"
    if "\<not> notificationThrows q"
    using that by (simp add: timerEffect_finished)
  then show "\<exists>s'. step p (SetLongBreakDuration v) s = Some (Inr s') \<and>
        timerState s' = timerState s \<and>
        workDuration s' = workDuration s \<and> shortBreakDuration s' = shortBreakDuration s \<and>
        longBreakDuration s' = v \<and> alarmVolume s' = alarmVolume s \<and>
        (\<not> isBreak s \<and> 4 dvd completedPomodoros s + 1 \<and> \<not> notificationThrows q \<longrightarrow>
           (\<exists>f. timerEffect q (s'\<lparr>timeLeft := 0\<rparr>) = Inr f \<and> timeLeft f = v * 60))"
    using s' by (auto simp: deps_fields timerState_def smod4_dvd)
next
  from step_config_edit [OF assms, of "SetAlarmVolume x" p]
  obtain s' where s': "step p (SetAlarmVolume x) s = Some (Inr s')"
      "deps s' = deps (s\<lparr>alarmVolume := x\<rparr>)" "alarmVolume s' = x"
    by auto
  then show "\<exists>s'. step p (SetAlarmVolume x) s = Some (Inr s') \<and> timerState s' = timerState s \<and>
        workDuration s' = workDuration s \<and> shortBreakDuration s' = shortBreakDuration s \<and>
        longBreakDuration s' = longBreakDuration s \<and> alarmVolume s' = x"
    by (auto simp: deps_fields timerState_def)
qed

theorem config_edit_frame_witness:
  "timeLeft pausedBreak \<noteq> 0 \<and> isBreak pausedBreak \<and> \<not> notificationThrows workingPlatform \<and>
   step failingPlatform (SetWorkDuration 15) pausedBreak
     = Some (Inr (pausedBreak\<lparr>workDuration := 15\<rparr>)) \<and>
   map_sum id timeLeft
     (timerEffect workingPlatform (pausedBreak\<lparr>workDuration := 15, timeLeft := 0\<rparr>))
     = Inr 900 \<and>
   timeLeft initialState \<noteq> 0 \<and> \<not> isBreak initialState \<and>
   \<not> 4 dvd completedPomodoros initialState + 1 \<and>
   step failingPlatform (SetShortBreakDuration 3) initialState
     = Some (Inr (initialState\<lparr>shortBreakDuration := 3\<rparr>)) \<and>
   map_sum id timeLeft
     (timerEffect workingPlatform (initialState\<lparr>shortBreakDuration := 3, timeLeft := 0\<rparr>))
     = Inr 180 \<and>
   4 dvd completedPomodoros (initialState\<lparr>completedPomodoros := 3\<rparr>) + 1 \<and>
   step failingPlatform (SetLongBreakDuration 45) (initialState\<lparr>completedPomodoros := 3\<rparr>)
     = Some (Inr (initialState\<lparr>completedPomodoros := 3, longBreakDuration := 45\<rparr>)) \<and>
   map_sum id timeLeft
     (timerEffect workingPlatform
        (initialState\<lparr>completedPomodoros := 3, longBreakDuration := 45, timeLeft := 0\<rparr>))
     = Inr 2700 \<and>
   timeLeft runningState \<noteq> 0 \<and>
   map_option
     (map_sum id (\<lambda>s. (timerState s, workDuration s, shortBreakDuration s,
                        longBreakDuration s, alarmVolume s)))
     (step workingPlatform (SetAlarmVolume 1) runningState)
     = Some (Inr ((1500, True, False, 0), 25, 5, 15, 1))"
proof -
  let ?c = "initialState\<lparr>completedPomodoros := 3\<rparr>"
  have nz: "timeLeft pausedBreak \<noteq> 0" "timeLeft initialState \<noteq> 0" "timeLeft ?c \<noteq> 0"
      "timeLeft runningState \<noteq> 0"
    by (simp_all add: pausedBreak_def firstBreak_def initialState_def runningState_def)
  have sc: "settled ?c"
    by (simp add: settled_def validConfig_def tickSourceOk_def initialState_def)
  have w: "step failingPlatform (SetWorkDuration 15) pausedBreak
      = Some (Inr (pausedBreak\<lparr>workDuration := 15\<rparr>))"
    using step_idle_edit [OF pausedBreak_settled, of "SetWorkDuration 15" failingPlatform]
    by (simp add: pausedBreak_def firstBreak_def)
  have sh: "step failingPlatform (SetShortBreakDuration 3) initialState
      = Some (Inr (initialState\<lparr>shortBreakDuration := 3\<rparr>))"
    using step_idle_edit [OF initialState_settled, of "SetShortBreakDuration 3" failingPlatform]
    by (simp add: initialState_def)
  have lo: "step failingPlatform (SetLongBreakDuration 45) ?c
      = Some (Inr (initialState\<lparr>completedPomodoros := 3, longBreakDuration := 45\<rparr>))"
    using step_idle_edit [OF sc, of "SetLongBreakDuration 45" failingPlatform]
    by (simp add: initialState_def)
  have facts: "isBreak pausedBreak" "\<not> isBreak initialState" "\<not> isBreak ?c"
      "\<not> 4 dvd completedPomodoros initialState + 1" "4 dvd completedPomodoros ?c + 1"
    by (simp_all add: pausedBreak_def firstBreak_def initialState_def)
  have a: "map_sum id timeLeft
     (timerEffect workingPlatform (pausedBreak\<lparr>workDuration := 15, timeLeft := 0\<rparr>))
     = Inr 900"
    using config_edit_frame [OF nz(1), where p = failingPlatform and v = 15 and q = workingPlatform and x = 1] w facts(1)
      workingPlatform_returns
    by auto
  have b: "map_sum id timeLeft
     (timerEffect workingPlatform (initialState\<lparr>shortBreakDuration := 3, timeLeft := 0\<rparr>))
     = Inr 180"
    using config_edit_frame [OF nz(2), where p = failingPlatform and v = 3 and q = workingPlatform and x = 1] sh facts(2,4)
      workingPlatform_returns
    by auto
  have c: "map_sum id timeLeft
     (timerEffect workingPlatform
        (initialState\<lparr>completedPomodoros := 3, longBreakDuration := 45, timeLeft := 0\<rparr>))
     = Inr 2700"
    using config_edit_frame [OF nz(3), where p = failingPlatform and v = 45 and q = workingPlatform and x = 1] lo facts(3,5)
      workingPlatform_returns
    by auto
  have d: "map_option
     (map_sum id (\<lambda>s. (timerState s, workDuration s, shortBreakDuration s,
                        longBreakDuration s, alarmVolume s)))
     (step workingPlatform (SetAlarmVolume 1) runningState)
     = Some (Inr ((1500, True, False, 0), 25, 5, 15, 1))"
    using config_edit_frame [OF nz(4), where p = workingPlatform and v = 15 and q = workingPlatform and x = 1]
    by (auto simp: timerState_def runningState_def initialState_def)
  show ?thesis
    using nz facts workingPlatform_returns w sh lo a b c d by simp
qed

end
